theory Spec2Isabelle
  imports Main
begin

section \<open>Ways in which a call can fail to return normally\<close>

text \<open>
  The C++ sources end a call abnormally in four ways: a thrown \<open>nik::Error\<close> (with its
  message), a failed \<open>assert\<close> (only in a build where assertions are compiled in; every
  function below that contains an \<open>assert\<close> takes the flag \<open>asserts\<close> saying so),
  a call through a null pointer, and a call on an object that has been destroyed.
  The last three end the whole process.
\<close>

datatype failure = Error string | AssertFailed | NullDeref | UseAfterFree

section \<open>Event (Event.cpp)\<close>

text \<open>
  An \<open>Event*\<close> is \<open>None\<close> for the null pointer and \<open>Some b\<close> for a manual-reset event whose
  signaled state is \<open>b\<close>.

  \<open>Event::Create\<close>: \<open>EventImpl::Init\<close> calls \<open>CreateEvent\<close> (manual reset, initially not
  signaled) and asserts the handle; without assertions it returns false, the constructor
  of \<open>Event\<close> throws, and \<open>Event::Create\<close> catches the exception and returns 0.
  The argument \<open>os_ok\<close> says whether \<open>CreateEvent\<close> succeeds.
\<close>

type_synonym Event_ptr = "bool option"

definition Event_Create :: "bool \<Rightarrow> bool \<Rightarrow> failure + Event_ptr" where
  "Event_Create asserts os_ok =
     (if os_ok then Inr (Some False)
      else if asserts then Inl AssertFailed
      else Inr None)"

definition SetEvent :: "Event_ptr \<Rightarrow> failure + Event_ptr" where
  "SetEvent e = (case e of None \<Rightarrow> Inl NullDeref | Some _ \<Rightarrow> Inr (Some True))"

definition ClearEvent :: "Event_ptr \<Rightarrow> failure + Event_ptr" where
  "ClearEvent e = (case e of None \<Rightarrow> Inl NullDeref | Some _ \<Rightarrow> Inr (Some False))"

section \<open>The coordinators' data (ThreadObj.h)\<close>

text \<open>
  \<open>SimpleThreadCoord\<close> has the two event pointers and the user function; \<open>ThreadCoord\<close>
  has the same three members and the flag \<open>m_IsRunning\<close>. The record of \<open>ThreadCoord\<close>
  extends the other one only so that the members keep their names: the C++ classes are
  unrelated.
\<close>

record 'u SimpleThreadCoord =
  m_StopEvent :: Event_ptr
  m_ThreadStoppedEvent :: Event_ptr
  m_UserFunc :: 'u

record 'u ThreadCoord = "'u SimpleThreadCoord" +
  m_IsRunning :: bool

text \<open>\<open>ThreadCoord(CLIENT_FUNC userFunc)\<close>, the copy constructor and \<open>operator=\<close>.\<close>

definition ThreadCoord_ctor :: "'u \<Rightarrow> 'u ThreadCoord" where
  "ThreadCoord_ctor userFunc =
     \<lparr>m_StopEvent = None, m_ThreadStoppedEvent = None, m_UserFunc = userFunc,
      m_IsRunning = False\<rparr>"

definition ThreadCoord_copy :: "'u ThreadCoord \<Rightarrow> 'u ThreadCoord" where
  "ThreadCoord_copy orig =
     \<lparr>m_StopEvent = None, m_ThreadStoppedEvent = None, m_UserFunc = m_UserFunc orig,
      m_IsRunning = False\<rparr>"

definition ThreadCoord_assign :: "'u ThreadCoord \<Rightarrow> 'u ThreadCoord \<Rightarrow> 'u ThreadCoord" where
  "ThreadCoord_assign this rhs = this\<lparr>m_UserFunc := m_UserFunc rhs\<rparr>"

definition IsRunning :: "'u ThreadCoord \<Rightarrow> bool" where
  "IsRunning this = m_IsRunning this"

section \<open>ThreadCoord and ThreadObj as threads taking steps\<close>

text \<open>
  The member functions of \<open>ThreadCoord\<close> run on several threads at once (\<open>Run\<close> on the
  thread that \<open>ThreadObj\<close> starts, \<open>SignalStop\<close> and \<open>WaitForStop\<close> on the owner's), so each
  one is a sequence of steps, one step for each statement that reads or writes the
  coordinator. A thread is a number; its program counter names the statement it executes
  next.
\<close>

datatype pc =
    Idle
  | Run_Entry           \<comment> \<open>\<open>if( m_IsRunning) { log; return; }\<close>\<close>
  | Run_SetRunning      \<comment> \<open>\<open>assert( !m_IsRunning); m_IsRunning = true;\<close>\<close>
  | Run_CheckEvents     \<comment> \<open>\<open>if(!m_StopEvent)\<close>\<close>
  | Run_CreateStop      \<comment> \<open>\<open>m_StopEvent = Event::Create(); assert(m_StopEvent);\<close>\<close>
  | Run_CreateStopped   \<comment> \<open>\<open>m_ThreadStoppedEvent = Event::Create(); assert(...);\<close>\<close>
  | Run_ResetStop       \<comment> \<open>\<open>Reset\<close>: \<open>m_StopEvent->ClearEvent();\<close>\<close>
  | Run_ResetStopped    \<comment> \<open>\<open>Reset\<close>: \<open>m_ThreadStoppedEvent->ClearEvent();\<close>\<close>
  | Run_LoopStart       \<comment> \<open>\<open>log; bool continueThread = true;\<close>\<close>
  | Run_LoopCond        \<comment> \<open>\<open>while(m_UserFunc.Run(continueThread) && continueThread)\<close>\<close>
  | Run_Poll            \<comment> \<open>\<open>m_StopEvent->WaitForEvent(0)\<close> and the \<open>if\<close> after it\<close>
  | Run_ClearRunning    \<comment> \<open>\<open>m_IsRunning = false;\<close>\<close>
  | Run_SetStopped      \<comment> \<open>\<open>m_ThreadStoppedEvent->SetEvent();\<close>\<close>
  | TF_Cleanup          \<comment> \<open>\<open>MyThreadFunction\<close>: \<open>delete m_Thread; m_Thread = 0;\<close>\<close>
  | Sig_Entry           \<comment> \<open>\<open>SignalStop\<close>: \<open>if( !m_IsRunning) { log; return; }\<close>\<close>
  | Sig_Set             \<comment> \<open>\<open>assert(m_StopEvent); m_StopEvent->SetEvent();\<close>\<close>
  | Wait_Entry          \<comment> \<open>\<open>WaitForStop\<close>: \<open>if( !m_IsRunning) { log; return; }\<close>\<close>
  | Wait_SetStop        \<comment> \<open>\<open>assert(m_StopEvent); m_StopEvent->SetEvent();\<close>\<close>
  | Wait_Block          \<comment> \<open>\<open>m_ThreadStoppedEvent->WaitForEvent(Event::FOREVER);\<close>\<close>

text \<open>
  The state: the coordinator \<open>ThreadObj::m_ThreadCoord\<close>, the pointer
  \<open>ThreadObj::m_Thread\<close> (true when not null), and for each thread its program counter,
  its local \<open>continueThread\<close> and whether its \<open>Run\<close> was called from \<open>MyThreadFunction\<close>.
  \<open>crash\<close> is set when the process has ended abnormally. \<open>logged\<close> collects what is written
  to \<open>nik::log\<close> (each message without its final newline). \<open>calls\<close>, \<open>exits\<close> and \<open>wait_returns\<close> count the invocations of the user
  function, the exits from the \<open>while\<close> loop of \<open>Run\<close>, and the returns of \<open>WaitForStop\<close>.
  \<open>os_events\<close> and \<open>os_threads\<close> are the environment: whether the coming calls of
  \<open>CreateEvent\<close> and \<open>CreateThread\<close> succeed (they do once the list is used up).
\<close>

record 'u sys =
  coord :: "'u ThreadCoord"
  m_Thread :: bool
  pcs :: "nat \<Rightarrow> pc"
  continueThread :: "nat \<Rightarrow> bool"
  in_tf :: "nat \<Rightarrow> bool"
  retval :: "nat \<Rightarrow> bool option"
  crash :: "failure option"
  logged :: "string list"
  calls :: nat
  exits :: nat
  wait_returns :: nat
  os_events :: "bool list"
  os_threads :: "bool list"

definition next_ok :: "bool list \<Rightarrow> bool" where
  "next_ok oks = (case oks of [] \<Rightarrow> True | ok # _ \<Rightarrow> ok)"

definition goto :: "nat \<Rightarrow> pc \<Rightarrow> 'u sys \<Rightarrow> 'u sys" where
  "goto t p s = s\<lparr>pcs := (pcs s)(t := p)\<rparr>"

definition crashed :: "failure \<Rightarrow> 'u sys \<Rightarrow> 'u sys" where
  "crashed f s = s\<lparr>crash := Some f\<rparr>"

definition logmsg :: "string \<Rightarrow> 'u sys \<Rightarrow> 'u sys" where
  "logmsg m s = s\<lparr>logged := logged s @ [m]\<rparr>"

text \<open>Where \<open>Run\<close> returns to: into \<open>MyThreadFunction\<close>, or to a direct caller.\<close>

definition Run_return :: "nat \<Rightarrow> 'u sys \<Rightarrow> 'u sys" where
  "Run_return t s = goto t (if in_tf s t then TF_Cleanup else Idle) s"

text \<open>
  One step of thread \<open>t\<close>. The user function is the parameter \<open>urun\<close>: from the client
  object and the flag it is called with, to its result and the client object afterwards
  (the flag is passed by value, as in \<open>SimpleThreadCoord::UserFunc_t\<close>).
  A thread in \<open>Wait_Block\<close> whose event is not signaled does not move.
\<close>

definition thread_step ::
  "bool \<Rightarrow> ('u \<Rightarrow> bool \<Rightarrow> bool \<times> 'u) \<Rightarrow> nat \<Rightarrow> 'u sys \<Rightarrow> 'u sys" where
  "thread_step asserts urun t s =
     (let c = coord s in
      case pcs s t of
        Idle \<Rightarrow> s
      | Run_Entry \<Rightarrow>
          if m_IsRunning c
          then Run_return t (logmsg
                 ''Warning: Thread already running, attempted to call ThreadCoord::Run()'' s)
          else goto t Run_SetRunning s
      | Run_SetRunning \<Rightarrow>
          if asserts \<and> m_IsRunning c then crashed AssertFailed s
          else goto t Run_CheckEvents (s\<lparr>coord := c\<lparr>m_IsRunning := True\<rparr>\<rparr>)
      | Run_CheckEvents \<Rightarrow>
          if m_StopEvent c = None then goto t Run_CreateStop s else goto t Run_ResetStop s
      | Run_CreateStop \<Rightarrow>
          (case Event_Create asserts (next_ok (os_events s)) of
             Inl f \<Rightarrow> crashed f s
           | Inr e \<Rightarrow>
               if asserts \<and> e = None then crashed AssertFailed s
               else goto t Run_CreateStopped
                      (s\<lparr>coord := c\<lparr>m_StopEvent := e\<rparr>, os_events := tl (os_events s)\<rparr>))
      | Run_CreateStopped \<Rightarrow>
          (case Event_Create asserts (next_ok (os_events s)) of
             Inl f \<Rightarrow> crashed f s
           | Inr e \<Rightarrow>
               if asserts \<and> e = None then crashed AssertFailed s
               else goto t Run_ResetStop
                      (s\<lparr>coord := c\<lparr>m_ThreadStoppedEvent := e\<rparr>,
                         os_events := tl (os_events s)\<rparr>))
      | Run_ResetStop \<Rightarrow>
          (case ClearEvent (m_StopEvent c) of
             Inl f \<Rightarrow> crashed f s
           | Inr e \<Rightarrow> goto t Run_ResetStopped (s\<lparr>coord := c\<lparr>m_StopEvent := e\<rparr>\<rparr>))
      | Run_ResetStopped \<Rightarrow>
          (case ClearEvent (m_ThreadStoppedEvent c) of
             Inl f \<Rightarrow> crashed f s
           | Inr e \<Rightarrow> goto t Run_LoopStart (s\<lparr>coord := c\<lparr>m_ThreadStoppedEvent := e\<rparr>\<rparr>))
      | Run_LoopStart \<Rightarrow>
          goto t Run_LoopCond
            (logmsg ''Run-> Loop start...''
               (s\<lparr>continueThread := (continueThread s)(t := True)\<rparr>))
      | Run_LoopCond \<Rightarrow>
          (let (r, u) = urun (m_UserFunc c) (continueThread s t);
               s1 = s\<lparr>coord := c\<lparr>m_UserFunc := u\<rparr>, calls := calls s + 1\<rparr>
           in if r \<and> continueThread s t then goto t Run_Poll s1
              else goto t Run_ClearRunning (s1\<lparr>exits := exits s + 1\<rparr>))
      | Run_Poll \<Rightarrow>
          (case m_StopEvent c of
             None \<Rightarrow> crashed NullDeref s
           | Some signaled \<Rightarrow>
               if signaled
               then goto t Run_LoopCond
                      (logmsg ''Received stop event''
                         (s\<lparr>continueThread := (continueThread s)(t := False)\<rparr>))
               else goto t Run_LoopCond s)
      | Run_ClearRunning \<Rightarrow>
          goto t Run_SetStopped (s\<lparr>coord := c\<lparr>m_IsRunning := False\<rparr>\<rparr>)
      | Run_SetStopped \<Rightarrow>
          (case SetEvent (m_ThreadStoppedEvent c) of
             Inl f \<Rightarrow> crashed f s
           | Inr e \<Rightarrow> Run_return t (s\<lparr>coord := c\<lparr>m_ThreadStoppedEvent := e\<rparr>\<rparr>))
      | TF_Cleanup \<Rightarrow>
          goto t Idle (s\<lparr>m_Thread := False, in_tf := (in_tf s)(t := False)\<rparr>)
      | Sig_Entry \<Rightarrow>
          if \<not> m_IsRunning c
          then goto t Idle (logmsg
                 ''[ThreadCoord::SignalStop] Thread is not running, cannot signal stop'' s)
          else goto t Sig_Set s
      | Sig_Set \<Rightarrow>
          if asserts \<and> m_StopEvent c = None then crashed AssertFailed s
          else (case SetEvent (m_StopEvent c) of
                  Inl f \<Rightarrow> crashed f s
                | Inr e \<Rightarrow> goto t Idle (s\<lparr>coord := c\<lparr>m_StopEvent := e\<rparr>\<rparr>))
      | Wait_Entry \<Rightarrow>
          if \<not> m_IsRunning c
          then goto t Idle (logmsg
                 ''[ThreadCoord::WaitForStop] Thread is not running, skipping wait.''
                 (s\<lparr>wait_returns := wait_returns s + 1\<rparr>))
          else goto t Wait_SetStop s
      | Wait_SetStop \<Rightarrow>
          if asserts \<and> m_StopEvent c = None then crashed AssertFailed s
          else (case SetEvent (m_StopEvent c) of
                  Inl f \<Rightarrow> crashed f s
                | Inr e \<Rightarrow> goto t Wait_Block (s\<lparr>coord := c\<lparr>m_StopEvent := e\<rparr>\<rparr>))
      | Wait_Block \<Rightarrow>
          (case m_ThreadStoppedEvent c of
             None \<Rightarrow> crashed (if asserts then AssertFailed else NullDeref) s
           | Some signaled \<Rightarrow>
               if signaled then goto t Idle (s\<lparr>wait_returns := wait_returns s + 1\<rparr>)
               else s))"

text \<open>
  \<open>ThreadObj::Run(THREAD_COORD userObj)\<close>, called by thread \<open>t\<close>; \<open>w\<close> is the thread that
  \<open>CreateThread\<close> starts on \<open>MyThreadFunction\<close>, a thread that does not run yet. The
  parameter is a copy of the caller's coordinator, and it is assigned to
  \<open>m_ThreadCoord\<close>; the copy has no events, so its destructor does nothing.
\<close>

definition ThreadObj_Run ::
  "bool \<Rightarrow> 'u ThreadCoord \<Rightarrow> nat \<Rightarrow> nat \<Rightarrow> 'u sys \<Rightarrow> 'u sys" where
  "ThreadObj_Run asserts arg t w s =
     (if w = t \<or> pcs s w \<noteq> Idle then s
      else if asserts \<and> m_Thread s then crashed AssertFailed s
      else
        let userObj = ThreadCoord_copy arg;
            s1 = s\<lparr>coord := ThreadCoord_assign (coord s) userObj, m_Thread := True,
                   os_threads := tl (os_threads s)\<rparr>
        in if next_ok (os_threads s)
           then s1\<lparr>pcs := (pcs s)(w := Run_Entry), in_tf := (in_tf s)(w := True),
                   retval := (retval s)(t := Some True)\<rparr>
           else if asserts then crashed AssertFailed s1
           else s1\<lparr>retval := (retval s)(t := Some False)\<rparr>)"

text \<open>
  What the scheduler and the callers do: a thread that is idle calls a member function,
  or a thread takes its next step. Nothing moves once the process has crashed, and a
  call by a thread that is busy does not happen.
\<close>

datatype 'u op =
    Op_Run
  | Op_SignalStop
  | Op_WaitForStop
  | Op_ThreadObj_Run "'u ThreadCoord" nat

datatype 'u action = Call nat "'u op" | Step nat

definition step ::
  "bool \<Rightarrow> ('u \<Rightarrow> bool \<Rightarrow> bool \<times> 'u) \<Rightarrow> 'u action \<Rightarrow> 'u sys \<Rightarrow> 'u sys" where
  "step asserts urun a s =
     (if crash s \<noteq> None then s
      else case a of
        Step t \<Rightarrow> thread_step asserts urun t s
      | Call t f \<Rightarrow>
          if pcs s t \<noteq> Idle then s
          else (case f of
                  Op_Run \<Rightarrow> goto t Run_Entry s
                | Op_SignalStop \<Rightarrow> goto t Sig_Entry s
                | Op_WaitForStop \<Rightarrow> goto t Wait_Entry s
                | Op_ThreadObj_Run arg w \<Rightarrow> ThreadObj_Run asserts arg t w s))"

fun exec ::
  "bool \<Rightarrow> ('u \<Rightarrow> bool \<Rightarrow> bool \<times> 'u) \<Rightarrow> 'u action list \<Rightarrow> 'u sys \<Rightarrow> 'u sys" where
  "exec asserts urun [] s = s"
| "exec asserts urun (a # as) s = exec asserts urun as (step asserts urun a s)"

text \<open>
  A \<open>ThreadObj\<close> after its constructor: the coordinator is default-constructed (no events,
  not running; \<open>u\<close> is the default-constructed client), no thread exists.
\<close>

definition ThreadObj_ctor :: "'u \<Rightarrow> bool list \<Rightarrow> bool list \<Rightarrow> 'u sys" where
  "ThreadObj_ctor u evs ths =
     \<lparr>coord = \<lparr>m_StopEvent = None, m_ThreadStoppedEvent = None, m_UserFunc = u,
               m_IsRunning = False\<rparr>,
      m_Thread = False, pcs = (\<lambda>_. Idle), continueThread = (\<lambda>_. False),
      in_tf = (\<lambda>_. False), retval = (\<lambda>_. None), crash = None, logged = [],
      calls = 0, exits = 0, wait_returns = 0, os_events = evs, os_threads = ths\<rparr>"

section \<open>SimpleThreadCoord (ThreadObj.cpp)\<close>

text \<open>
  The one-shot coordinator has no flag \<open>m_IsRunning\<close>; its user function is a function
  pointer \<open>bool (*)(bool)\<close>, null after the default constructor. Its copy constructor is
  the compiler's (the declaration is commented out: "Use default copy construction"),
  which copies the three members, the event pointers too.

  Its member functions are modelled as one call each, seen from the calling thread. What
  the other threads do in the meantime is an argument: \<open>polls\<close> says, for each poll of the
  stop event in the loop, whether another thread has signaled it by then, and
  \<open>stopped_later\<close> says whether the thread in \<open>Run\<close> signals the stopped event while
  \<open>WaitForStop\<close> blocks. A result \<open>None\<close> is a call that has not returned: the loop is
  still running when the polls are used up, or the wait blocks for ever.
\<close>

definition SimpleThreadCoord_ctor :: "(bool \<Rightarrow> bool) \<Rightarrow> (bool \<Rightarrow> bool) option SimpleThreadCoord" where
  "SimpleThreadCoord_ctor userFunc =
     \<lparr>m_StopEvent = None, m_ThreadStoppedEvent = None, m_UserFunc = Some userFunc\<rparr>"

definition SimpleThreadCoord_default :: "(bool \<Rightarrow> bool) option SimpleThreadCoord" where
  "SimpleThreadCoord_default =
     \<lparr>m_StopEvent = None, m_ThreadStoppedEvent = None, m_UserFunc = None\<rparr>"

definition SimpleThreadCoord_copy ::
  "(bool \<Rightarrow> bool) option SimpleThreadCoord \<Rightarrow> (bool \<Rightarrow> bool) option SimpleThreadCoord" where
  "SimpleThreadCoord_copy orig =
     \<lparr>m_StopEvent = m_StopEvent orig, m_ThreadStoppedEvent = m_ThreadStoppedEvent orig,
      m_UserFunc = m_UserFunc orig\<rparr>"

definition SimpleThreadCoord_assign ::
  "(bool \<Rightarrow> bool) option SimpleThreadCoord \<Rightarrow> (bool \<Rightarrow> bool) option SimpleThreadCoord
   \<Rightarrow> (bool \<Rightarrow> bool) option SimpleThreadCoord" where
  "SimpleThreadCoord_assign this rhs = this\<lparr>m_UserFunc := m_UserFunc rhs\<rparr>"

text \<open>
  The loop of \<open>SimpleThreadCoord::Run\<close>: the user function is called with the flag, and
  the loop goes on while it returns true and the flag is true; then the stop event is
  polled, and the flag is cleared when it is signaled.
\<close>

fun Simple_loop ::
  "(bool \<Rightarrow> bool) option \<Rightarrow> Event_ptr \<Rightarrow> bool \<Rightarrow> bool list \<Rightarrow> (failure + Event_ptr) option" where
  "Simple_loop f ev continue polls =
     (case f of
        None \<Rightarrow> Some (Inl NullDeref)
      | Some userFunc \<Rightarrow>
          if userFunc continue \<and> continue
          then (case polls of
                  [] \<Rightarrow> None
                | p # ps \<Rightarrow>
                    (case ev of
                       None \<Rightarrow> Some (Inl NullDeref)
                     | Some b \<Rightarrow>
                         if b \<or> p then Simple_loop f (Some True) False ps
                         else Simple_loop f (Some False) continue ps))
          else Some (Inr ev))"

definition SimpleThreadCoord_Run ::
  "bool \<Rightarrow> bool \<Rightarrow> bool \<Rightarrow> bool list \<Rightarrow> (bool \<Rightarrow> bool) option SimpleThreadCoord
   \<Rightarrow> (failure + (bool \<Rightarrow> bool) option SimpleThreadCoord) option" where
  "SimpleThreadCoord_Run asserts ok1 ok2 polls this =
     (if asserts \<and> (m_StopEvent this \<noteq> None \<or> m_ThreadStoppedEvent this \<noteq> None)
      then Some (Inl AssertFailed)
      else if m_StopEvent this \<noteq> None \<or> m_ThreadStoppedEvent this \<noteq> None
      then Some (Inl (Error ''SimpleThreadCoord::Run->Events have already been created''))
      else
        case Event_Create asserts ok1 of
          Inl f \<Rightarrow> Some (Inl f)
        | Inr e1 \<Rightarrow>
            if asserts \<and> e1 = None then Some (Inl AssertFailed)
            else
            (case Event_Create asserts ok2 of
               Inl f \<Rightarrow> Some (Inl f)
             | Inr e2 \<Rightarrow>
                 if asserts \<and> e2 = None then Some (Inl AssertFailed)
                 else
                 (case Simple_loop (m_UserFunc this) e1 True polls of
                    None \<Rightarrow> None
                  | Some (Inl f) \<Rightarrow> Some (Inl f)
                  | Some (Inr e1') \<Rightarrow>
                      (case SetEvent e2 of
                         Inl f \<Rightarrow> Some (Inl f)
                       | Inr e2' \<Rightarrow>
                           Some (Inr (this\<lparr>m_StopEvent := e1',
                                          m_ThreadStoppedEvent := e2'\<rparr>))))))"

definition SimpleThreadCoord_SignalStop ::
  "bool \<Rightarrow> (bool \<Rightarrow> bool) option SimpleThreadCoord
   \<Rightarrow> failure + (bool \<Rightarrow> bool) option SimpleThreadCoord" where
  "SimpleThreadCoord_SignalStop asserts this =
     (if asserts \<and> m_StopEvent this = None then Inl AssertFailed
      else case SetEvent (m_StopEvent this) of
             Inl f \<Rightarrow> Inl f
           | Inr e \<Rightarrow> Inr (this\<lparr>m_StopEvent := e\<rparr>))"

definition SimpleThreadCoord_WaitForStop ::
  "bool \<Rightarrow> bool \<Rightarrow> (bool \<Rightarrow> bool) option SimpleThreadCoord
   \<Rightarrow> (failure + (bool \<Rightarrow> bool) option SimpleThreadCoord) option" where
  "SimpleThreadCoord_WaitForStop asserts stopped_later this =
     (if asserts \<and> m_StopEvent this = None then Some (Inl AssertFailed)
      else case SetEvent (m_StopEvent this) of
             Inl f \<Rightarrow> Some (Inl f)
           | Inr e \<Rightarrow>
               (case m_ThreadStoppedEvent this of
                  None \<Rightarrow> Some (Inl (if asserts then AssertFailed else NullDeref))
                | Some signaled \<Rightarrow>
                    if signaled then Some (Inr (this\<lparr>m_StopEvent := e\<rparr>))
                    else if stopped_later
                    then Some (Inr (this\<lparr>m_StopEvent := e, m_ThreadStoppedEvent := Some True\<rparr>))
                    else None))"

section \<open>Mutex (Mutex.cpp)\<close>

text \<open>
  \<open>MutexImpl::Lock\<close> maps the result of \<open>WaitForSingleObject\<close>: a timeout is the result
  false, anything else than \<open>WAIT_OBJECT_0\<close> (an abandoned mutex, a failed wait) asserts
  and throws. The error code that the message ends with is left out.
\<close>

datatype wait_result = WAIT_OBJECT_0 | WAIT_TIMEOUT | WAIT_OTHER

definition Mutex_Lock :: "bool \<Rightarrow> wait_result \<Rightarrow> failure + bool" where
  "Mutex_Lock asserts result =
     (case result of
        WAIT_TIMEOUT \<Rightarrow> Inr False
      | WAIT_OTHER \<Rightarrow>
          if asserts then Inl AssertFailed
          else Inl (Error ''Mutex::Lock - Wait failed with code: '')
      | WAIT_OBJECT_0 \<Rightarrow> Inr True)"

section \<open>Logger and Logger::LogImpl (Logger.h, Logger.cpp)\<close>

text \<open>
  A pointer member that is deleted and not reset is \<open>Deleted\<close>. The output file stream is
  its open flag, its failure flag (\<open>!m_Of\<close>) and the name of the file it is open on; the
  files themselves are a map from names to contents, and \<open>no_access\<close> holds of the names
  that cannot be opened for writing.
\<close>

datatype ptr = Null | Live | Deleted

record ofstream =
  of_open :: bool
  of_fail :: bool
  of_path :: string

datatype lthread = Drain | Owner

datatype drain_pc =
    D_NotStarted
  | D_While        \<comment> \<open>\<open>while(log->m_Continue)\<close>\<close>
  | D_Lock         \<comment> \<open>\<open>ScopeLock al(log->m_BuffMutex);\<close>\<close>
  | D_Take         \<comment> \<open>\<open>outBuffer << log->m_Buffer.str(); log->m_Buffer.str("");\<close>\<close>
  | D_Unlock       \<comment> \<open>the end of the scope of \<open>al\<close>\<close>
  | D_Write        \<comment> \<open>\<open>log->m_Of << outBuffer.str(); outBuffer.str("");\<close>\<close>
  | D_Flush        \<comment> \<open>\<open>log->m_Of.flush();\<close>\<close>
  | D_Sleep        \<comment> \<open>\<open>Sleep(25);\<close>\<close>
  | D_Done

datatype dtor_pc =
    T_Entry          \<comment> \<open>\<open>if(!m_ThreadStarted) return;\<close>\<close>
  | T_ClearContinue  \<comment> \<open>\<open>m_Continue = false;\<close>\<close>
  | T_Sleep          \<comment> \<open>\<open>Sleep(50);\<close>\<close>
  | T_Lock           \<comment> \<open>\<open>ScopeLock al(m_BuffMutex);\<close>\<close>
  | T_ForceWrite     \<comment> \<open>\<open>ForceWrite();\<close>\<close>
  | T_Unlock         \<comment> \<open>the end of the scope of \<open>al\<close>\<close>
  | T_Delete         \<comment> \<open>\<open>delete m_ThreadHandle; delete m_BuffMutex;\<close>\<close>
  | T_Close          \<comment> \<open>\<open>CloseFile();\<close>\<close>
  | T_Done

text \<open>
  The state of a \<open>Logger\<close> with its \<open>LogImpl\<close>: the members (\<open>m_Os\<close> is the stream of
  \<open>Logger\<close>, the others are members of \<open>LogImpl\<close>), the files, the thread that holds
  \<open>m_BuffMutex\<close>, the program counter and the local \<open>outBuffer\<close> of the thread in
  \<open>LogThreadFunc\<close>, the program counter of the thread in \<open>~LogImpl\<close> (\<open>T_Entry\<close> until the
  destructor is called), and \<open>log_crash\<close>, set when the process has ended abnormally.
\<close>

record logger =
  m_Os :: string
  m_Of :: ofstream
  m_Buffer :: string
  m_ThreadHandle :: ptr
  m_BuffMutex :: ptr
  m_Continue :: bool
  m_ThreadStarted :: bool
  files :: "string \<Rightarrow> string option"
  no_access :: "string \<Rightarrow> bool"
  buff_owner :: "lthread option"
  drain :: drain_pc
  outBuffer :: string
  dtor :: dtor_pc
  log_crash :: "failure option"

definition Wait_Time_glob :: nat where
  "Wait_Time_glob = 10"

text \<open>
  \<open>std::ofstream\<close>. \<open>open(name)\<close> has the default mode \<open>ios_base::out\<close>, which creates
  the file or truncates it; it fails when the stream is open already or the file cannot
  be opened, and clears the failure flag when it succeeds. \<open>close()\<close> fails on a stream
  that is not open. \<open><<\<close> does nothing on a failed stream and fails on a closed one
  (unless there is nothing to write). What is written reaches the file at once in this
  model, so \<open>flush()\<close> changes nothing.
\<close>

definition ofstream_open :: "string \<Rightarrow> logger \<Rightarrow> logger" where
  "ofstream_open name s =
     (if of_open (m_Of s) \<or> no_access s name
      then s\<lparr>m_Of := (m_Of s)\<lparr>of_fail := True\<rparr>\<rparr>
      else s\<lparr>m_Of := \<lparr>of_open = True, of_fail = False, of_path = name\<rparr>,
             files := (files s)(name \<mapsto> [])\<rparr>)"

definition ofstream_close :: "logger \<Rightarrow> logger" where
  "ofstream_close s =
     (if of_open (m_Of s) then s\<lparr>m_Of := (m_Of s)\<lparr>of_open := False\<rparr>\<rparr>
      else s\<lparr>m_Of := (m_Of s)\<lparr>of_fail := True\<rparr>\<rparr>)"

definition ofstream_write :: "string \<Rightarrow> logger \<Rightarrow> logger" where
  "ofstream_write str s =
     (if of_fail (m_Of s) then s
      else if of_open (m_Of s)
      then s\<lparr>files := (files s)(of_path (m_Of s) \<mapsto>
                (case files s (of_path (m_Of s)) of None \<Rightarrow> str | Some old \<Rightarrow> old @ str))\<rparr>
      else if str = [] then s
      else s\<lparr>m_Of := (m_Of s)\<lparr>of_fail := True\<rparr>\<rparr>)"

text \<open>A \<open>Logger\<close> after its constructor, in a world with the given files.\<close>

definition Logger_ctor :: "(string \<Rightarrow> string option) \<Rightarrow> (string \<Rightarrow> bool) \<Rightarrow> logger" where
  "Logger_ctor fs na =
     \<lparr>m_Os = [], m_Of = \<lparr>of_open = False, of_fail = False, of_path = []\<rparr>, m_Buffer = [],
      m_ThreadHandle = Null, m_BuffMutex = Null, m_Continue = False,
      m_ThreadStarted = False, files = fs, no_access = na, buff_owner = None,
      drain = D_NotStarted, outBuffer = [], dtor = T_Entry, log_crash = None\<rparr>"

definition CloseFile :: "logger \<Rightarrow> bool \<times> logger" where
  "CloseFile s =
     (if \<not> of_open (m_Of s) then (False, s)
      else let s1 = ofstream_close s in (of_fail (m_Of s1), s1))"

definition OpenFile :: "string \<Rightarrow> logger \<Rightarrow> bool \<times> logger" where
  "OpenFile fileName s =
     (let s1 = (if of_open (m_Of s) then snd (CloseFile s) else s);
          s2 = ofstream_open fileName s1
      in if of_fail (m_Of s2) then (False, s2) else (True, s2))"

text \<open>
  \<open>StartThread\<close>. \<open>Mutex::Create\<close> is \<open>new Mutex()\<close>, whose constructor asserts and throws
  when \<open>CreateMutex\<close> fails (\<open>mutex_ok\<close> false), so the test of the pointer after it is
  never reached with a null pointer. \<open>thread_ok\<close> says whether \<open>CreateThread\<close> succeeds;
  \<open>ThreadImpl::StartThread\<close> asserts that it does, and its result is not looked at.
  A thrown error leaves the members as they are at the throw.
\<close>

definition StartThread :: "bool \<Rightarrow> bool \<Rightarrow> bool \<Rightarrow> logger \<Rightarrow> (failure + unit) \<times> logger" where
  "StartThread asserts mutex_ok thread_ok s =
     (if m_ThreadStarted s then (Inr (), s)
      else
        let s1 = s\<lparr>m_ThreadStarted := True\<rparr> in
        if \<not> mutex_ok
        then (if asserts then (Inl AssertFailed, s1)
              else (Inl (Error ''Mutex::Mutex - Create mutex failed with code: ''), s1))
        else
          let s2 = s1\<lparr>m_BuffMutex := Live, m_Continue := True, m_ThreadHandle := Live\<rparr>
          in if thread_ok then (Inr (), s2\<lparr>drain := D_While\<rparr>)
             else if asserts then (Inl AssertFailed, s2)
             else (Inr (), s2))"

definition SetFile ::
  "bool \<Rightarrow> bool \<Rightarrow> bool \<Rightarrow> string \<Rightarrow> logger \<Rightarrow> (failure + bool) \<times> logger" where
  "SetFile asserts mutex_ok thread_ok fileName s =
     (case OpenFile fileName s of
        (False, s1) \<Rightarrow> if asserts then (Inl AssertFailed, s1) else (Inr False, s1)
      | (True, s1) \<Rightarrow>
          (case StartThread asserts mutex_ok thread_ok s1 of
             (Inl f, s2) \<Rightarrow> (Inl f, s2)
           | (Inr _, s2) \<Rightarrow> (Inr True, s2)))"

definition ForceWrite :: "logger \<Rightarrow> bool \<times> logger" where
  "ForceWrite s =
     (let s1 = s\<lparr>m_Buffer := m_Buffer s @ m_Os s, m_Os := []\<rparr>;
          s2 = ofstream_write (m_Buffer s1) s1
      in (True, s2\<lparr>m_Buffer := []\<rparr>))"

text \<open>
  \<open>LogImpl::Write\<close>. \<open>wait\<close> is the environment: the result of \<open>WaitForSingleObject\<close> on
  \<open>m_BuffMutex\<close> for a given timeout in milliseconds.
\<close>

definition Write ::
  "bool \<Rightarrow> (nat \<Rightarrow> wait_result) \<Rightarrow> string \<Rightarrow> logger \<Rightarrow> (failure + bool) \<times> logger" where
  "Write asserts wait os s =
     (case m_BuffMutex s of
        Null \<Rightarrow> (Inl NullDeref, s)
      | Deleted \<Rightarrow> (Inl UseAfterFree, s)
      | Live \<Rightarrow>
          (case Mutex_Lock asserts (wait Wait_Time_glob) of
             Inl f \<Rightarrow> (Inl f, s)
           | Inr locked \<Rightarrow>
               if \<not> locked then (Inr False, s)
               else (Inr True, s\<lparr>m_Buffer := m_Buffer s @ os\<rparr>)))"

text \<open>
  \<open>Logger::operator<<\<close> and \<open>Logger::Flush\<close>; the lock \<open>m_Lock\<close> of \<open>Logger\<close> that both
  take is not modelled (the calls below are not interleaved with each other).
\<close>

definition Logger_shift :: "string \<Rightarrow> logger \<Rightarrow> logger" where
  "Logger_shift val s = s\<lparr>m_Os := m_Os s @ val\<rparr>"

definition Flush :: "bool \<Rightarrow> (nat \<Rightarrow> wait_result) \<Rightarrow> logger \<Rightarrow> (failure + unit) \<times> logger" where
  "Flush asserts wait s =
     (case Write asserts wait (m_Os s) s of
        (Inl f, s1) \<Rightarrow> (Inl f, s1)
      | (Inr written, s1) \<Rightarrow> (Inr (), if written then s1\<lparr>m_Os := []\<rparr> else s1))"

section \<open>The logger's threads taking steps\<close>

text \<open>
  One step of the thread in \<open>LogThreadFunc\<close>. A \<open>ScopeLock\<close> waits without timeout
  (the build without \<open>NIK_DEBUG\<close>): a thread at a lock that another thread holds does not
  move. Once the destructor has returned, the object is gone and every access to it is
  a use after free; so is a call on the deleted mutex.
\<close>

definition lcrashed :: "failure \<Rightarrow> logger \<Rightarrow> logger" where
  "lcrashed f s = s\<lparr>log_crash := Some f\<rparr>"

definition ScopeLock_ctor :: "lthread \<Rightarrow> logger \<Rightarrow> logger option" where
  "ScopeLock_ctor t s =
     (case m_BuffMutex s of
        Null \<Rightarrow> Some (lcrashed NullDeref s)
      | Deleted \<Rightarrow> Some (lcrashed UseAfterFree s)
      | Live \<Rightarrow> if buff_owner s = None then Some (s\<lparr>buff_owner := Some t\<rparr>) else None)"

definition ScopeLock_dtor :: "lthread \<Rightarrow> logger \<Rightarrow> logger" where
  "ScopeLock_dtor t s =
     (case m_BuffMutex s of
        Null \<Rightarrow> lcrashed NullDeref s
      | Deleted \<Rightarrow> lcrashed UseAfterFree s
      | Live \<Rightarrow> if buff_owner s = Some t then s\<lparr>buff_owner := None\<rparr> else s)"

definition drain_step :: "logger \<Rightarrow> logger" where
  "drain_step s =
     (if drain s = D_NotStarted \<or> drain s = D_Done then s
      else if dtor s = T_Done then lcrashed UseAfterFree s
      else case drain s of
        D_While \<Rightarrow> if m_Continue s then s\<lparr>drain := D_Lock\<rparr> else s\<lparr>drain := D_Done\<rparr>
      | D_Lock \<Rightarrow>
          (case ScopeLock_ctor Drain s of None \<Rightarrow> s | Some s1 \<Rightarrow> s1\<lparr>drain := D_Take\<rparr>)
      | D_Take \<Rightarrow>
          s\<lparr>outBuffer := outBuffer s @ m_Buffer s, m_Buffer := [], drain := D_Unlock\<rparr>
      | D_Unlock \<Rightarrow> (ScopeLock_dtor Drain s)\<lparr>drain := D_Write\<rparr>
      | D_Write \<Rightarrow> (ofstream_write (outBuffer s) s)\<lparr>outBuffer := [], drain := D_Flush\<rparr>
      | D_Flush \<Rightarrow> s\<lparr>drain := D_Sleep\<rparr>
      | D_Sleep \<Rightarrow> s\<lparr>drain := D_While\<rparr>
      | _ \<Rightarrow> s)"

text \<open>One step of the thread in \<open>~LogImpl\<close>.\<close>

definition dtor_step :: "logger \<Rightarrow> logger" where
  "dtor_step s =
     (case dtor s of
        T_Entry \<Rightarrow>
          if \<not> m_ThreadStarted s then s\<lparr>dtor := T_Done\<rparr> else s\<lparr>dtor := T_ClearContinue\<rparr>
      | T_ClearContinue \<Rightarrow> s\<lparr>m_Continue := False, dtor := T_Sleep\<rparr>
      | T_Sleep \<Rightarrow> s\<lparr>dtor := T_Lock\<rparr>
      | T_Lock \<Rightarrow>
          (case ScopeLock_ctor Owner s of None \<Rightarrow> s | Some s1 \<Rightarrow> s1\<lparr>dtor := T_ForceWrite\<rparr>)
      | T_ForceWrite \<Rightarrow> (snd (ForceWrite s))\<lparr>dtor := T_Unlock\<rparr>
      | T_Unlock \<Rightarrow> (ScopeLock_dtor Owner s)\<lparr>dtor := T_Delete\<rparr>
      | T_Delete \<Rightarrow> s\<lparr>m_ThreadHandle := Deleted, m_BuffMutex := Deleted, dtor := T_Close\<rparr>
      | T_Close \<Rightarrow> (snd (CloseFile s))\<lparr>dtor := T_Done\<rparr>
      | T_Done \<Rightarrow> s)"

text \<open>
  A producer's \<open>log << text; log.Flush();\<close> as one step: \<open>Write\<close> gets the mutex when no
  thread holds it, and times out when one does.
\<close>

definition producer_step :: "bool \<Rightarrow> string \<Rightarrow> logger \<Rightarrow> logger" where
  "producer_step asserts text s =
     (if dtor s = T_Done then lcrashed UseAfterFree s
      else case Flush asserts
                  (\<lambda>timeOut. if buff_owner s = None then WAIT_OBJECT_0 else WAIT_TIMEOUT)
                  (Logger_shift text s) of
             (Inl f, s1) \<Rightarrow> lcrashed f s1
           | (Inr _, s1) \<Rightarrow> s1)"

datatype laction = Drain_step | Dtor_step | Producer string

definition lstep :: "bool \<Rightarrow> laction \<Rightarrow> logger \<Rightarrow> logger" where
  "lstep asserts a s =
     (if log_crash s \<noteq> None then s
      else case a of
        Drain_step \<Rightarrow> drain_step s
      | Dtor_step \<Rightarrow> dtor_step s
      | Producer text \<Rightarrow> producer_step asserts text s)"

fun lexec :: "bool \<Rightarrow> laction list \<Rightarrow> logger \<Rightarrow> logger" where
  "lexec asserts [] s = s"
| "lexec asserts (a # as) s = lexec asserts as (lstep asserts a s)"

section \<open>Inputs used in the theorems\<close>

text \<open>
  Two clients: one whose \<open>Run\<close> asks to stop at its first call, and one that always asks
  to go on and counts its calls.
\<close>

definition quit_at_once :: "unit \<Rightarrow> bool \<Rightarrow> bool \<times> unit" where
  "quit_at_once u flag = (False, u)"

definition count_calls :: "nat \<Rightarrow> bool \<Rightarrow> bool \<times> nat" where
  "count_calls n flag = (True, Suc n)"

text \<open>
  A complete cycle: thread 0 calls \<open>Run\<close> and reaches the loop (nine steps, the last one the
  first call of the client); thread 1 calls \<open>SignalStop\<close>, then \<open>WaitForStop\<close> and blocks;
  thread 0 polls the stop event, calls the client once more, leaves the loop and returns;
  thread 1 returns from \<open>WaitForStop\<close>.
\<close>

definition one_cycle :: "'u action list" where
  "one_cycle =
     [Call 0 Op_Run] @ replicate 9 (Step 0) @
     [Call 1 Op_SignalStop, Step 1, Step 1] @
     [Call 1 Op_WaitForStop, Step 1, Step 1] @
     replicate 4 (Step 0) @
     [Step 1]"

text \<open>
  The start of a second \<open>Run\<close>: thread 0 has executed \<open>m_IsRunning = true\<close> and not yet
  \<open>Reset()\<close> when thread 1 calls \<open>WaitForStop\<close> and takes its three steps.
\<close>

definition rerun_window :: "'u action list" where
  "rerun_window =
     [Call 0 Op_Run, Step 0, Step 0] @
     [Call 1 Op_WaitForStop, Step 1, Step 1, Step 1]"

text \<open>
  The caller's side of a stop: \<open>k\<close> calls of \<open>SignalStop\<close> by thread \<open>c\<close>, each taken to its
  end, then a call of \<open>WaitForStop\<close> taken to the point where it blocks.
\<close>

definition stop_k_then_wait :: "nat \<Rightarrow> nat \<Rightarrow> 'u action list" where
  "stop_k_then_wait c k =
     concat (replicate k [Call c Op_SignalStop, Step c, Step c]) @
     [Call c Op_WaitForStop, Step c, Step c]"

text \<open>
  Schedules in which thread \<open>w\<close> only takes steps and the other threads only call
  \<open>SignalStop\<close> and \<open>WaitForStop\<close>, any number of times and in any order.
\<close>

definition stop_or_wait :: "nat \<Rightarrow> 'u action \<Rightarrow> bool" where
  "stop_or_wait w a =
     (case a of
        Step t \<Rightarrow> True
      | Call t f \<Rightarrow>
          t \<noteq> w \<and> (case f of Op_SignalStop \<Rightarrow> True | Op_WaitForStop \<Rightarrow> True | _ \<Rightarrow> False))"

definition caller_pc :: "pc \<Rightarrow> bool" where
  "caller_pc p =
     (p = Idle \<or> p = Sig_Entry \<or> p = Sig_Set \<or> p = Wait_Entry \<or> p = Wait_SetStop \<or>
      p = Wait_Block)"

text \<open>
  A coordinator whose thread \<open>w\<close> is in the work loop of \<open>Run\<close>, with no call of the other
  threads in progress.
\<close>

definition in_loop :: "nat \<Rightarrow> 'u sys \<Rightarrow> bool" where
  "in_loop w s =
     (crash s = None \<and> m_IsRunning (coord s) \<and> m_StopEvent (coord s) \<noteq> None \<and>
      m_ThreadStoppedEvent (coord s) = Some False \<and>
      (pcs s w = Run_LoopCond \<or> pcs s w = Run_Poll) \<and>
      (\<forall>t. t \<noteq> w \<longrightarrow> pcs s t = Idle))"

text \<open>
  What holds from the loop to the return of \<open>Run\<close>, whatever the other threads do with
  \<open>SignalStop\<close> and \<open>WaitForStop\<close>; \<open>e0\<close> and \<open>r0\<close> are the counts of loop exits and of
  returns of \<open>WaitForStop\<close> at the start.
\<close>

definition cycle_inv :: "nat \<Rightarrow> nat \<Rightarrow> nat \<Rightarrow> 'u sys \<Rightarrow> bool" where
  "cycle_inv w e0 r0 s =
     (let p = pcs s w in
      crash s = None \<and> m_StopEvent (coord s) \<noteq> None \<and>
      (\<forall>t. t \<noteq> w \<longrightarrow> caller_pc (pcs s t)) \<and>
      (p = Run_LoopCond \<or> p = Run_Poll \<or> p = Run_ClearRunning \<or> p = Run_SetStopped \<or>
       p = TF_Cleanup \<or> p = Idle) \<and>
      m_IsRunning (coord s) = (p = Run_LoopCond \<or> p = Run_Poll \<or> p = Run_ClearRunning) \<and>
      m_ThreadStoppedEvent (coord s) = Some (p = TF_Cleanup \<or> p = Idle) \<and>
      exits s = (if p = Run_LoopCond \<or> p = Run_Poll then e0 else e0 + 1) \<and>
      (m_IsRunning (coord s) \<longrightarrow> wait_returns s = r0))"

text \<open>
  For the way out of the loop once the stop event is signaled: thread \<open>w\<close> is at \<open>p\<close>
  with \<open>e\<close> loop exits more than in \<open>q0\<close>, and then has returned from \<open>Run\<close>; the other
  threads are where they were in \<open>q0\<close>.
\<close>

definition stopping :: "nat \<Rightarrow> 'u sys \<Rightarrow> pc \<Rightarrow> nat \<Rightarrow> 'u sys \<Rightarrow> bool" where
  "stopping w q0 p e q =
     (crash q = None \<and> wait_returns q = wait_returns q0 \<and>
      (\<forall>t. t \<noteq> w \<longrightarrow> pcs q t = pcs q0 t) \<and>
      m_StopEvent (coord q) = Some True \<and> m_ThreadStoppedEvent (coord q) = Some False \<and>
      m_IsRunning (coord q) \<and> pcs q w = p \<and> exits q = exits q0 + e)"

definition returned :: "nat \<Rightarrow> 'u sys \<Rightarrow> 'u sys \<Rightarrow> bool" where
  "returned w q0 q =
     (crash q = None \<and> wait_returns q = wait_returns q0 \<and>
      (\<forall>t. t \<noteq> w \<longrightarrow> pcs q t = pcs q0 t) \<and>
      m_StopEvent (coord q) = Some True \<and> m_ThreadStoppedEvent (coord q) = Some True \<and>
      \<not> m_IsRunning (coord q) \<and> pcs q w = Idle \<and> exits q = exits q0 + 1)"

definition stop_set :: "'u sys \<Rightarrow> 'u sys" where
  "stop_set s = s\<lparr>coord := (coord s)\<lparr>m_StopEvent := Some True\<rparr>\<rparr>"

text \<open>
  The start-up window of \<open>Run\<close> on thread 0. After \<open>flag_set_only\<close> the thread has set
  \<open>m_IsRunning\<close> and made no event yet; after \<open>startup_window\<close> it has made both events
  and has not called \<open>Reset()\<close> yet. \<open>steps_of\<close> turns a list of choices into steps of
  thread 0 and thread 1: every way in which the two threads can go on.
\<close>

definition flag_set_only :: "'u action list" where
  "flag_set_only = [Call 0 Op_Run, Step 0, Step 0]"

definition startup_window :: "'u action list" where
  "startup_window = [Call 0 Op_Run] @ replicate 5 (Step 0)"

definition steps_of :: "bool list \<Rightarrow> 'u action list" where
  "steps_of bs = map (\<lambda>b. Step (if b then 0 else 1)) bs"

text \<open>
  A coordinator on which thread \<open>c\<close> can call \<open>SignalStop\<close> and \<open>WaitForStop\<close> and get
  past their tests: the flag is set and the stop event exists.
\<close>

definition stoppable :: "nat \<Rightarrow> 'u sys \<Rightarrow> bool" where
  "stoppable c s =
     (crash s = None \<and> m_IsRunning (coord s) \<and> m_StopEvent (coord s) \<noteq> None \<and>
      pcs s c = Idle)"

text \<open>
  Thread 1 blocked in \<open>WaitForStop\<close> while thread 0 is about to clear the stop event in
  \<open>Reset()\<close>, or has cleared it and is on its way into the loop or in the loop.
\<close>

definition stop_erased :: "'u sys \<Rightarrow> bool" where
  "stop_erased s =
     (crash s = None \<and> m_IsRunning (coord s) \<and>
      m_ThreadStoppedEvent (coord s) = Some False \<and> pcs s 1 = Wait_Block \<and>
      exits s = 0 \<and> wait_returns s = 0 \<and>
      (pcs s 0 = Run_ResetStop \<and>
       (m_StopEvent (coord s) = Some True \<or> m_StopEvent (coord s) = Some False) \<or>
       m_StopEvent (coord s) = Some False \<and>
       (pcs s 0 = Run_ResetStopped \<or> pcs s 0 = Run_LoopStart \<or>
        (pcs s 0 = Run_LoopCond \<or> pcs s 0 = Run_Poll) \<and> continueThread s 0)))"

text \<open>A coordinator in the loop, as it is after the first eight steps of a first \<open>Run\<close>.\<close>

definition looping :: "nat sys" where
  "looping =
     \<lparr>coord = \<lparr>m_StopEvent = Some False, m_ThreadStoppedEvent = Some False,
               m_UserFunc = 0, m_IsRunning = True\<rparr>,
      m_Thread = False, pcs = (\<lambda>_. Idle)(0 := Run_LoopCond),
      continueThread = (\<lambda>_. False)(0 := True),
      in_tf = (\<lambda>_. False), retval = (\<lambda>_. None), crash = None,
      logged = [''Run-> Loop start...''],
      calls = 0, exits = 0, wait_returns = 0, os_events = [], os_threads = []\<rparr>"

text \<open>
  A \<open>SimpleThreadCoord\<close> as it is while its \<open>Run\<close> is in the loop (both events created,
  none signaled), and one whose \<open>Run\<close> has returned; the user function asks to go on
  until it is told to stop.
\<close>

definition simple_running :: "(bool \<Rightarrow> bool) option SimpleThreadCoord" where
  "simple_running =
     \<lparr>m_StopEvent = Some False, m_ThreadStoppedEvent = Some False,
      m_UserFunc = Some (\<lambda>flag. flag)\<rparr>"

definition simple_stopped :: "(bool \<Rightarrow> bool) option SimpleThreadCoord" where
  "simple_stopped =
     \<lparr>m_StopEvent = Some True, m_ThreadStoppedEvent = Some True,
      m_UserFunc = Some (\<lambda>flag. flag)\<rparr>"

text \<open>
  A \<open>ThreadObj\<close> that is run twice by thread 1 with the same coordinator, on thread 0:
  the first thread runs \<open>MyThreadFunction\<close> to its end (thirteen steps with a client that
  asks to stop at once) before the second call.
\<close>

definition run_twice :: "unit action list" where
  "run_twice =
     [Call 1 (Op_ThreadObj_Run (ThreadCoord_ctor ()) 0)] @ replicate 13 (Step 0) @
     [Call 1 (Op_ThreadObj_Run (ThreadCoord_ctor ()) 0)]"

text \<open>
  A world with one file, and a name that cannot be opened; a logger in it after
  \<open>SetFile("log.txt")\<close> has succeeded and started the thread.
\<close>

definition old_files :: "string \<Rightarrow> string option" where
  "old_files = (\<lambda>_. None)(''a.log'' \<mapsto> ''old'')"

definition log_active :: logger where
  "log_active =
     snd (SetFile False True True ''log.txt'' (Logger_ctor old_files (\<lambda>n. n = ''bad'')))"

text \<open>
  Two shutdowns. In both a producer writes \<open>A\<close>, and the thread takes it out of
  \<open>m_Buffer\<close> and releases the lock (four steps), and does not run again before the
  \<open>Sleep(50)\<close> of the destructor is over. In the first the destructor then runs to its
  end. In the second a producer writes \<open>B\<close> before the destructor starts, and the thread
  writes its \<open>outBuffer\<close> after the destructor's \<open>ForceWrite\<close> and before its \<open>CloseFile\<close>.
\<close>

definition lost_on_shutdown :: "laction list" where
  "lost_on_shutdown =
     [Producer ''A''] @ replicate 4 Drain_step @ replicate 8 Dtor_step"

definition reordered_on_shutdown :: "laction list" where
  "reordered_on_shutdown =
     [Producer ''A''] @ replicate 4 Drain_step @ [Producer ''B''] @
     replicate 5 Dtor_step @ [Drain_step] @ replicate 3 Dtor_step"

text \<open>
  Two started loggers with text to write, \<open>A\<close> in \<open>m_Buffer\<close> and \<open>B\<close> in \<open>m_Os\<close>: one
  whose second \<open>SetFile\<close> could not open its file, and one whose first \<open>SetFile\<close> could
  not make the mutex (the error is thrown after \<open>m_ThreadStarted\<close> is set, so nothing
  reaches \<open>m_Buffer\<close>: only \<open>B\<close> waits in \<open>m_Os\<close>).
\<close>

definition log_no_sink :: logger where
  "log_no_sink =
     Logger_shift ''B''
       (lstep False (Producer ''A'') (snd (SetFile False True True ''bad'' log_active)))"

definition log_no_mutex :: logger where
  "log_no_mutex =
     Logger_shift ''B''
       (snd (SetFile False False True ''log.txt'' (Logger_ctor old_files (\<lambda>n. n = ''bad''))))"

section \<open>Properties of ThreadCoord\<close>

lemmas sys_defs =
  step_def thread_step_def goto_def Run_return_def logmsg_def crashed_def next_ok_def
  Event_Create_def SetEvent_def ClearEvent_def IsRunning_def Let_def

text \<open>A coordinator is not running after its constructors.\<close>

lemma not_running_before_Run:
  "\<not> IsRunning (ThreadCoord_ctor userFunc)" "\<not> IsRunning (ThreadCoord_copy orig)"
  "\<not> IsRunning (coord (ThreadObj_ctor u evs ths))"
  by (simp_all add: IsRunning_def ThreadCoord_ctor_def ThreadCoord_copy_def ThreadObj_ctor_def)

text \<open>
  On the way out of \<open>Run\<close> the flag is cleared in one step and the stopped event is set in
  the next one.
\<close>

lemma Run_exit_order:
  assumes "crash s = None" and "pcs s t = Run_ClearRunning"
    and "m_ThreadStoppedEvent (coord s) = Some b"
  shows "let s1 = step asserts urun (Step t) s; s2 = step asserts urun (Step t) s1
         in \<not> IsRunning (coord s1) \<and> m_ThreadStoppedEvent (coord s1) = Some b \<and>
            \<not> IsRunning (coord s2) \<and> m_ThreadStoppedEvent (coord s2) = Some True"
  using assms by (simp add: sys_defs)

text \<open>
  C4. The claim: the running flag is false before the first \<open>Run\<close>, true between the entry
  into the work loop and the exit from it, and cleared before the stopped signal is set, so
  that a waiter that has observed the stopped signal never observes \<open>IsRunning() == true\<close>.
  The code at a second \<open>Run\<close>: after one complete cycle the stopped event is still
  signaled; \<open>Run\<close> sets \<open>m_IsRunning\<close> before \<open>Reset()\<close> clears the events, and a
  \<open>WaitForStop\<close> called in between returns on the old signal (the second return counted
  here) while \<open>IsRunning()\<close> is true. \<open>Reset()\<close> then clears the stop signal that this
  \<open>WaitForStop\<close> has set, and the loop runs on: after twenty more steps of thread 0 the
  flag is still set and the loop has not been left a second time.
\<close>

theorem C4_waiter_sees_running_on_rerun:
  "(let s = exec False count_calls (one_cycle @ rerun_window) (ThreadObj_ctor 0 [] [])
    in crash s = None \<and> wait_returns s = 2 \<and> pcs s 1 = Idle \<and>
       m_ThreadStoppedEvent (coord s) = Some True \<and> IsRunning (coord s)) \<and>
   (let s = exec True count_calls (one_cycle @ rerun_window) (ThreadObj_ctor 0 [] [])
    in crash s = None \<and> wait_returns s = 2 \<and> pcs s 1 = Idle \<and>
       m_ThreadStoppedEvent (coord s) = Some True \<and> IsRunning (coord s)) \<and>
   (let s = exec False count_calls (one_cycle @ rerun_window @ replicate 20 (Step 0))
              (ThreadObj_ctor 0 [] [])
    in crash s = None \<and> IsRunning (coord s) \<and> exits s = 1 \<and>
       m_StopEvent (coord s) = Some False)"
  by code_simp

text \<open>
  C7. The claim: a failure to allocate the stop or the stopped signal in \<open>Run\<close> surfaces
  an initialization-failure error to the caller, and the loop is not entered.
  The code, at a first \<open>Run\<close> in which \<open>CreateEvent\<close> fails: with assertions the
  process stops at the assertion in \<open>EventImpl::Init\<close>; without them \<open>Event::Create\<close>
  returns 0, \<open>Run\<close> goes on, and \<open>Reset()\<close> calls \<open>ClearEvent\<close> through the null pointer.
  The client is not called in either case, and no \<open>nik::Error\<close> reaches the caller.
\<close>

theorem C7_event_allocation_failure_crashes:
  "(let s = exec False quit_at_once ([Call 0 Op_Run] @ replicate 12 (Step 0))
              (ThreadObj_ctor () [False] [])
    in crash s = Some NullDeref \<and> pcs s 0 = Run_ResetStop \<and> calls s = 0) \<and>
   (let s = exec False quit_at_once ([Call 0 Op_Run] @ replicate 12 (Step 0))
              (ThreadObj_ctor () [True, False] [])
    in crash s = Some NullDeref \<and> pcs s 0 = Run_ResetStopped \<and> calls s = 0) \<and>
   (let s = exec True quit_at_once ([Call 0 Op_Run] @ replicate 12 (Step 0))
              (ThreadObj_ctor () [False] [])
    in crash s = Some AssertFailed \<and> pcs s 0 = Run_CreateStop \<and> calls s = 0) \<and>
   (let s = exec True quit_at_once ([Call 0 Op_Run] @ replicate 12 (Step 0))
              (ThreadObj_ctor () [True, False] [])
    in crash s = Some AssertFailed \<and> pcs s 0 = Run_CreateStopped \<and> calls s = 0)"
  by code_simp

text \<open>
  C5. \<open>Run\<close> of the re-entrant coordinator, for a thread at the entry of \<open>Run\<close>.
  When the coordinator is running already, the call logs a warning and returns, and the
  coordinator is as before. On a first call (no events yet, \<open>CreateEvent\<close> succeeding
  twice) eight steps allocate the two events, clear them and reach the loop, and the next
  step calls the client. On a later call (both events exist, as they do after a completed
  cycle) six steps clear the two events without allocating anything and reach the loop,
  and the next step calls the client again. Calling the client is applying its \<open>Run\<close>
  to the client object with the flag true: the client object is untouched until then and
  is what \<open>urun\<close> returns afterwards, and the result of \<open>urun\<close> decides whether the loop
  goes on to poll the stop event or ends.
\<close>

theorem C5_Run_reentrant:
  assumes "crash s = None" and "pcs s t = Run_Entry"
  shows
   "(m_IsRunning (coord s) \<longrightarrow>
       (let s' = step asserts urun (Step t) s
        in crash s' = None \<and> coord s' = coord s \<and>
           pcs s' t = (if in_tf s t then TF_Cleanup else Idle) \<and>
           logged s' = logged s @
             [''Warning: Thread already running, attempted to call ThreadCoord::Run()''] \<and>
           calls s' = calls s \<and> exits s' = exits s \<and> os_events s' = os_events s)) \<and>
    (\<not> m_IsRunning (coord s) \<and> m_StopEvent (coord s) = None \<and>
     next_ok (os_events s) \<and> next_ok (tl (os_events s)) \<longrightarrow>
       (let s' = exec asserts urun
                   [Step t, Step t, Step t, Step t, Step t, Step t, Step t, Step t] s
        in crash s' = None \<and> pcs s' t = Run_LoopCond \<and> IsRunning (coord s') \<and>
           m_StopEvent (coord s') = Some False \<and>
           m_ThreadStoppedEvent (coord s') = Some False \<and>
           os_events s' = tl (tl (os_events s)) \<and> continueThread s' t \<and>
           calls s' = calls s \<and> calls (step asserts urun (Step t) s') = calls s + 1 \<and>
           m_UserFunc (coord s') = m_UserFunc (coord s) \<and>
           m_UserFunc (coord (step asserts urun (Step t) s')) =
             snd (urun (m_UserFunc (coord s)) True) \<and>
           pcs (step asserts urun (Step t) s') t =
             (if fst (urun (m_UserFunc (coord s)) True) then Run_Poll else Run_ClearRunning))) \<and>
    (\<not> m_IsRunning (coord s) \<and> m_StopEvent (coord s) \<noteq> None \<and>
     m_ThreadStoppedEvent (coord s) \<noteq> None \<longrightarrow>
       (let s' = exec asserts urun [Step t, Step t, Step t, Step t, Step t, Step t] s
        in crash s' = None \<and> pcs s' t = Run_LoopCond \<and> IsRunning (coord s') \<and>
           m_StopEvent (coord s') = Some False \<and>
           m_ThreadStoppedEvent (coord s') = Some False \<and>
           os_events s' = os_events s \<and> continueThread s' t \<and>
           calls s' = calls s \<and> calls (step asserts urun (Step t) s') = calls s + 1 \<and>
           m_UserFunc (coord s') = m_UserFunc (coord s) \<and>
           m_UserFunc (coord (step asserts urun (Step t) s')) =
             snd (urun (m_UserFunc (coord s)) True) \<and>
           pcs (step asserts urun (Step t) s') t =
             (if fst (urun (m_UserFunc (coord s)) True) then Run_Poll else Run_ClearRunning)))"
proof (intro conjI impI)
  assume "m_IsRunning (coord s)"
  with assms show "let s' = step asserts urun (Step t) s
        in crash s' = None \<and> coord s' = coord s \<and>
           pcs s' t = (if in_tf s t then TF_Cleanup else Idle) \<and>
           logged s' = logged s @
             [''Warning: Thread already running, attempted to call ThreadCoord::Run()''] \<and>
           calls s' = calls s \<and> exits s' = exits s \<and> os_events s' = os_events s"
    by (simp add: sys_defs)
next
  assume "\<not> m_IsRunning (coord s) \<and> m_StopEvent (coord s) = None \<and>
     next_ok (os_events s) \<and> next_ok (tl (os_events s))"
  with assms show "let s' = exec asserts urun
                   [Step t, Step t, Step t, Step t, Step t, Step t, Step t, Step t] s
        in crash s' = None \<and> pcs s' t = Run_LoopCond \<and> IsRunning (coord s') \<and>
           m_StopEvent (coord s') = Some False \<and>
           m_ThreadStoppedEvent (coord s') = Some False \<and>
           os_events s' = tl (tl (os_events s)) \<and> continueThread s' t \<and>
           calls s' = calls s \<and> calls (step asserts urun (Step t) s') = calls s + 1 \<and>
           m_UserFunc (coord s') = m_UserFunc (coord s) \<and>
           m_UserFunc (coord (step asserts urun (Step t) s')) =
             snd (urun (m_UserFunc (coord s)) True) \<and>
           pcs (step asserts urun (Step t) s') t =
             (if fst (urun (m_UserFunc (coord s)) True) then Run_Poll else Run_ClearRunning)"
    by (simp add: step_def thread_step_def goto_def Run_return_def logmsg_def crashed_def
          Event_Create_def SetEvent_def ClearEvent_def IsRunning_def Let_def split_beta)
next
  assume "\<not> m_IsRunning (coord s) \<and> m_StopEvent (coord s) \<noteq> None \<and>
     m_ThreadStoppedEvent (coord s) \<noteq> None"
  then obtain a b where "\<not> m_IsRunning (coord s)" "m_StopEvent (coord s) = Some a"
      "m_ThreadStoppedEvent (coord s) = Some b"
    by auto
  with assms show "let s' = exec asserts urun [Step t, Step t, Step t, Step t, Step t, Step t] s
        in crash s' = None \<and> pcs s' t = Run_LoopCond \<and> IsRunning (coord s') \<and>
           m_StopEvent (coord s') = Some False \<and>
           m_ThreadStoppedEvent (coord s') = Some False \<and>
           os_events s' = os_events s \<and> continueThread s' t \<and>
           calls s' = calls s \<and> calls (step asserts urun (Step t) s') = calls s + 1 \<and>
           m_UserFunc (coord s') = m_UserFunc (coord s) \<and>
           m_UserFunc (coord (step asserts urun (Step t) s')) =
             snd (urun (m_UserFunc (coord s)) True) \<and>
           pcs (step asserts urun (Step t) s') t =
             (if fst (urun (m_UserFunc (coord s)) True) then Run_Poll else Run_ClearRunning)"
    by (simp add: step_def thread_step_def goto_def Run_return_def logmsg_def crashed_def
          Event_Create_def SetEvent_def ClearEvent_def IsRunning_def Let_def split_beta)
qed


theorem C5_Run_reentrant_witness:
  "(let s = step False count_calls (Call 1 Op_Run) looping;
        s' = step False count_calls (Step 1) s
    in m_IsRunning (coord s) \<and> crash s' = None \<and> coord s' = coord s \<and> pcs s' 1 = Idle \<and>
       calls s' = calls s \<and>
       logged s' = logged s @
         [''Warning: Thread already running, attempted to call ThreadCoord::Run()'']) \<and>
   (let s = step False count_calls (Call 0 Op_Run) (ThreadObj_ctor 0 [] []);
        s' = exec False count_calls
               [Step 0, Step 0, Step 0, Step 0, Step 0, Step 0, Step 0, Step 0] s
    in m_StopEvent (coord s) = None \<and> crash s' = None \<and> pcs s' 0 = Run_LoopCond \<and>
       m_StopEvent (coord s') = Some False \<and> m_ThreadStoppedEvent (coord s') = Some False \<and>
       calls (step False count_calls (Step 0) s') = 1 \<and>
       m_UserFunc (coord (step False count_calls (Step 0) s')) = 1 \<and>
       pcs (step False count_calls (Step 0) s') 0 = Run_Poll) \<and>
   (let s = exec False count_calls (one_cycle @ [Call 0 Op_Run]) (ThreadObj_ctor 0 [] []);
        s' = exec False count_calls [Step 0, Step 0, Step 0, Step 0, Step 0, Step 0] s
    in wait_returns s = 1 \<and> exits s = 1 \<and> m_StopEvent (coord s) = Some True \<and>
       m_ThreadStoppedEvent (coord s) = Some True \<and>
       crash s' = None \<and> pcs s' 0 = Run_LoopCond \<and>
       m_StopEvent (coord s') = Some False \<and> m_ThreadStoppedEvent (coord s') = Some False \<and>
       os_events s' = os_events s \<and> calls (step False count_calls (Step 0) s') = 3 \<and>
       m_UserFunc (coord (step False count_calls (Step 0) s')) = 3 \<and>
       pcs (step False count_calls (Step 0) s') 0 = Run_Poll)"
proof -
  let ?a = "step False count_calls (Call 1 Op_Run) looping"
  let ?b = "step False count_calls (Call 0 Op_Run) (ThreadObj_ctor 0 [] [])"
  let ?c = "exec False count_calls (one_cycle @ [Call 0 Op_Run]) (ThreadObj_ctor 0 [] [])"
  have a: "crash ?a = None" "pcs ?a 1 = Run_Entry" "m_IsRunning (coord ?a)" "\<not> in_tf ?a 1"
    by code_simp+
  have b: "crash ?b = None" "pcs ?b 0 = Run_Entry"
    "\<not> m_IsRunning (coord ?b) \<and> m_StopEvent (coord ?b) = None \<and>
     next_ok (os_events ?b) \<and> next_ok (tl (os_events ?b))" "calls ?b = 0" "m_UserFunc (coord ?b) = 0"
    by code_simp+
  have c: "crash ?c = None" "pcs ?c 0 = Run_Entry"
    "\<not> m_IsRunning (coord ?c) \<and> m_StopEvent (coord ?c) \<noteq> None \<and>
     m_ThreadStoppedEvent (coord ?c) \<noteq> None" "calls ?c = 2" "m_UserFunc (coord ?c) = 2"
    "wait_returns ?c = 1" "exits ?c = 1" "m_StopEvent (coord ?c) = Some True"
    "m_ThreadStoppedEvent (coord ?c) = Some True"
    by code_simp+
  from C5_Run_reentrant[OF a(1,2), of False count_calls, THEN conjunct1, THEN mp, OF a(3)] a
  have A: "let s = ?a; s' = step False count_calls (Step 1) s
    in m_IsRunning (coord s) \<and> crash s' = None \<and> coord s' = coord s \<and> pcs s' 1 = Idle \<and>
       calls s' = calls s \<and>
       logged s' = logged s @
         [''Warning: Thread already running, attempted to call ThreadCoord::Run()'']"
    by (simp add: Let_def count_calls_def)
  from C5_Run_reentrant[OF b(1,2), of False count_calls, THEN conjunct2, THEN conjunct1, THEN mp, OF b(3)] b
  have B: "let s = ?b;
        s' = exec False count_calls
               [Step 0, Step 0, Step 0, Step 0, Step 0, Step 0, Step 0, Step 0] s
    in m_StopEvent (coord s) = None \<and> crash s' = None \<and> pcs s' 0 = Run_LoopCond \<and>
       m_StopEvent (coord s') = Some False \<and> m_ThreadStoppedEvent (coord s') = Some False \<and>
       calls (step False count_calls (Step 0) s') = 1 \<and>
       m_UserFunc (coord (step False count_calls (Step 0) s')) = 1 \<and>
       pcs (step False count_calls (Step 0) s') 0 = Run_Poll"
    by (simp add: Let_def count_calls_def)
  from C5_Run_reentrant[OF c(1,2), of False count_calls, THEN conjunct2, THEN conjunct2, THEN mp, OF c(3)] c
  have C: "let s = ?c;
        s' = exec False count_calls [Step 0, Step 0, Step 0, Step 0, Step 0, Step 0] s
    in wait_returns s = 1 \<and> exits s = 1 \<and> m_StopEvent (coord s) = Some True \<and>
       m_ThreadStoppedEvent (coord s) = Some True \<and>
       crash s' = None \<and> pcs s' 0 = Run_LoopCond \<and>
       m_StopEvent (coord s') = Some False \<and> m_ThreadStoppedEvent (coord s') = Some False \<and>
       os_events s' = os_events s \<and> calls (step False count_calls (Step 0) s') = 3 \<and>
       m_UserFunc (coord (step False count_calls (Step 0) s')) = 3 \<and>
       pcs (step False count_calls (Step 0) s') 0 = Run_Poll"
    by (simp add: Let_def count_calls_def)
  show ?thesis
    by (intro conjI, rule A, rule B, rule C)
qed

subsection \<open>Stopping\<close>

lemma exec_append: "exec asserts urun (as @ bs) s = exec asserts urun bs (exec asserts urun as s)"
  by (induction as arbitrary: s) auto

lemma cycle_inv_thread_w:
  "cycle_inv w e0 r0 s \<Longrightarrow> cycle_inv w e0 r0 (thread_step asserts urun w s)"
  unfolding cycle_inv_def
  by (cases "pcs s w")
     (auto simp: thread_step_def goto_def Run_return_def logmsg_def crashed_def SetEvent_def
                 Let_def split: prod.splits option.splits)

lemma cycle_inv_thread_other:
  assumes I: "cycle_inv w e0 r0 s" and t: "t \<noteq> w"
  shows "cycle_inv w e0 r0 (thread_step asserts urun t s)"
proof -
  from I t have c: "caller_pc (pcs s t)" by (simp add: cycle_inv_def Let_def)
  show ?thesis using I t c unfolding cycle_inv_def caller_pc_def
    by (cases "pcs s t")
       (auto simp: thread_step_def goto_def Run_return_def logmsg_def crashed_def SetEvent_def
                   Let_def split: prod.splits option.splits)
qed

lemma cycle_inv_step:
  assumes I: "cycle_inv w e0 r0 s" and ok: "stop_or_wait w a"
  shows "cycle_inv w e0 r0 (step asserts urun a s)"
proof (cases a)
  case (Step t)
  from I have "crash s = None" by (simp add: cycle_inv_def Let_def)
  then show ?thesis
    using I Step cycle_inv_thread_w[of w e0 r0 s] cycle_inv_thread_other[of w e0 r0 s t]
    by (cases "t = w") (simp_all add: step_def)
next
  case (Call t f)
  then show ?thesis using I ok unfolding cycle_inv_def stop_or_wait_def
    by (cases f) (auto simp: step_def goto_def caller_pc_def Let_def)
qed

lemma cycle_inv_exec:
  "cycle_inv w e0 r0 s \<Longrightarrow> \<forall>a \<in> set as. stop_or_wait w a \<Longrightarrow>
   cycle_inv w e0 r0 (exec asserts urun as s)"
  by (induction as arbitrary: s) (auto intro: cycle_inv_step)

lemma in_loop_cycle_inv: "in_loop w s \<Longrightarrow> cycle_inv w (exits s) (wait_returns s) s"
  by (auto simp: in_loop_def cycle_inv_def caller_pc_def Let_def)

lemma stop_is_safe:
  assumes "in_loop w s" "\<forall>a \<in> set as. stop_or_wait w a"
  shows "let s' = exec asserts urun as s in
    crash s' = None \<and> exits s' \<le> exits s + 1 \<and>
    (wait_returns s' \<noteq> wait_returns s \<longrightarrow> exits s' = exits s + 1 \<and> \<not> IsRunning (coord s'))"
proof -
  have "cycle_inv w (exits s) (wait_returns s) (exec asserts urun as s)"
    using assms by (intro cycle_inv_exec in_loop_cycle_inv)
  then show ?thesis by (auto simp: cycle_inv_def Let_def IsRunning_def split: if_splits)
qed

text \<open>
  When \<open>Run\<close> has returned from such a cycle the coordinator is not running and has both
  events, the stopped one signaled: the state from which a later \<open>Run\<close> starts.
\<close>

lemma cycle_leaves_events:
  assumes "in_loop w s" and "\<forall>a \<in> set as. stop_or_wait w a"
    and "pcs (exec asserts urun as s) w = Idle"
  shows "let s' = exec asserts urun as s
         in crash s' = None \<and> \<not> m_IsRunning (coord s') \<and> m_StopEvent (coord s') \<noteq> None \<and>
            m_ThreadStoppedEvent (coord s') \<noteq> None"
proof -
  have "cycle_inv w (exits s) (wait_returns s) (exec asserts urun as s)"
    using assms(1,2) by (intro cycle_inv_exec in_loop_cycle_inv)
  with assms(3) show ?thesis
    by (auto simp: cycle_inv_def Let_def)
qed

lemma caller_idle: "in_loop w s \<Longrightarrow> c \<noteq> w \<Longrightarrow> (pcs s)(c := Idle) = pcs s"
  by (simp add: in_loop_def fun_upd_idem)

lemma signal_once:
  assumes "in_loop w s" "c \<noteq> w"
  shows "exec asserts urun [Call c Op_SignalStop, Step c, Step c] s = stop_set s"
proof -
  from assms have "pcs s c = Idle" "crash s = None" "m_IsRunning (coord s)" "m_StopEvent (coord s) \<noteq> None"
    by (simp_all add: in_loop_def)
  then show ?thesis using caller_idle[OF assms]
    by (auto simp: stop_set_def sys_defs)
qed

lemma in_loop_stop_set: "in_loop w s \<Longrightarrow> in_loop w (stop_set s)"
  by (auto simp: in_loop_def stop_set_def)

lemma stop_set_idem: "stop_set (stop_set s) = stop_set s"
  by (simp add: stop_set_def)

lemma signal_k:
  assumes "in_loop w s" "c \<noteq> w"
  shows "exec asserts urun (concat (replicate k [Call c Op_SignalStop, Step c, Step c])) s = (if k = 0 then s else stop_set s)"
  using assms
proof (induction k arbitrary: s)
  case 0 then show ?case by simp
next
  case (Suc k)
  have "exec asserts urun (concat (replicate (Suc k) [Call c Op_SignalStop, Step c, Step c])) s
      = exec asserts urun (concat (replicate k [Call c Op_SignalStop, Step c, Step c])) (stop_set s)"
    using signal_once[OF Suc.prems, of asserts urun] by simp
  also have "\<dots> = (if k = 0 then stop_set s else stop_set (stop_set s))"
    using Suc.IH[OF in_loop_stop_set[OF Suc.prems(1)] Suc.prems(2)] .
  finally show ?case by (simp add: stop_set_idem)
qed

lemma wait_to_block:
  assumes "in_loop w s" "c \<noteq> w"
  shows "exec asserts urun [Call c Op_WaitForStop, Step c, Step c] s = (stop_set s)\<lparr>pcs := (pcs s)(c := Wait_Block)\<rparr>"
proof -
  from assms have "pcs s c = Idle" "crash s = None" "m_IsRunning (coord s)" "m_StopEvent (coord s) \<noteq> None"
    by (simp_all add: in_loop_def)
  then show ?thesis
    by (auto simp: stop_set_def sys_defs)
qed

lemma stop_k_then_wait_blocks:
  assumes "in_loop w s" "c \<noteq> w"
  shows "exec asserts urun (stop_k_then_wait c k) s = (stop_set s)\<lparr>pcs := (pcs s)(c := Wait_Block)\<rparr>"
proof -
  have "exec asserts urun (stop_k_then_wait c k) s =
        exec asserts urun [Call c Op_WaitForStop, Step c, Step c] (if k = 0 then s else stop_set s)"
    unfolding stop_k_then_wait_def exec_append signal_k[OF assms] ..
  also have "\<dots> = (stop_set s)\<lparr>pcs := (pcs s)(c := Wait_Block)\<rparr>"
    using wait_to_block[OF assms, of asserts urun] wait_to_block[OF in_loop_stop_set[OF assms(1)] assms(2), of asserts urun]
    by (simp add: stop_set_def)
  finally show ?thesis .
qed

lemma returned_stays: "returned w q0 q \<Longrightarrow> exec asserts urun (replicate n (Step w)) q = q"
  by (induction n) (auto simp: returned_def step_def thread_step_def)

lemma from_ClearRunning:
  assumes "stopping w q0 Run_ClearRunning 1 q"
  shows "returned w q0 (exec asserts urun (replicate (3 + n) (Step w)) q)"
proof -
  have "returned w q0 (exec asserts urun [Step w, Step w, Step w] q)"
    using assms by (simp add: stopping_def returned_def sys_defs)
  then have "returned w q0 (exec asserts urun (replicate 3 (Step w)) q)"
    by (simp add: numeral_eq_Suc)
  then show ?thesis
    by (simp add: replicate_add exec_append returned_stays)
qed

lemma from_LoopCond_stopped:
  assumes "stopping w q0 Run_LoopCond 0 q" "\<not> continueThread q w"
  shows "returned w q0 (exec asserts urun (replicate (4 + n) (Step w)) q)"
proof -
  have "stopping w q0 Run_ClearRunning 1 (step asserts urun (Step w) q)"
    using assms by (simp add: stopping_def sys_defs split_beta)
  from from_ClearRunning[OF this, of asserts urun n] show ?thesis
    by (simp add: numeral_eq_Suc)
qed

lemma from_Poll:
  assumes "stopping w q0 Run_Poll 0 q"
  shows "returned w q0 (exec asserts urun (replicate (5 + n) (Step w)) q)"
proof -
  have "stopping w q0 Run_LoopCond 0 (step asserts urun (Step w) q) \<and> \<not> continueThread (step asserts urun (Step w) q) w"
    using assms by (simp add: stopping_def sys_defs)
  then have "returned w q0 (exec asserts urun (replicate (4 + n) (Step w)) (step asserts urun (Step w) q))"
    using from_LoopCond_stopped by blast
  then show ?thesis
    by (simp add: numeral_eq_Suc)
qed

lemma from_LoopCond:
  assumes "stopping w q0 Run_LoopCond 0 q"
  shows "returned w q0 (exec asserts urun (replicate (6 + n) (Step w)) q)"
proof -
  let ?q1 = "step asserts urun (Step w) q"
  have "stopping w q0 Run_Poll 0 ?q1 \<or> stopping w q0 Run_ClearRunning 1 ?q1"
    using assms by (simp add: stopping_def sys_defs split_beta)
  then have "returned w q0 (exec asserts urun (replicate (5 + n) (Step w)) ?q1)"
    using from_Poll[of w q0 ?q1 asserts urun n] from_ClearRunning[of w q0 ?q1 asserts urun "2 + n"]
    by (auto simp: add.assoc[symmetric])
  then show ?thesis
    by (simp add: numeral_eq_Suc)
qed

lemma stop_then_wait_returns:
  assumes L: "in_loop w s" and c: "c \<noteq> w"
  shows "let s' = exec asserts urun (stop_k_then_wait c k @ replicate 6 (Step w) @ [Step c]) s
         in crash s' = None \<and> exits s' = exits s + 1 \<and> wait_returns s' = wait_returns s + 1 \<and>
            \<not> IsRunning (coord s') \<and> pcs s' c = Idle \<and> pcs s' w = Idle"
proof -
  let ?b = "(stop_set s)\<lparr>pcs := (pcs s)(c := Wait_Block)\<rparr>"
  let ?r = "exec asserts urun (replicate 6 (Step w)) ?b"
  have "stopping w ?b Run_LoopCond 0 ?b \<or> stopping w ?b Run_Poll 0 ?b"
    using L c by (auto simp: in_loop_def stopping_def stop_set_def)
  then have R: "returned w ?b ?r"
    using from_LoopCond[of w ?b ?b asserts urun 0] from_Poll[of w ?b ?b asserts urun 1]
    by auto
  then have "pcs ?r c = Wait_Block" using c by (simp add: returned_def)
  with R c have "let s' = step asserts urun (Step c) ?r
         in crash s' = None \<and> exits s' = exits s + 1 \<and> wait_returns s' = wait_returns s + 1 \<and>
            \<not> IsRunning (coord s') \<and> pcs s' c = Idle \<and> pcs s' w = Idle"
    by (simp add: returned_def stop_set_def sys_defs)
  then show ?thesis
    by (simp add: exec_append stop_k_then_wait_blocks[OF L c])
qed

text \<open>
  Stopping a coordinator whose thread \<open>w\<close> is in the work loop. Whatever the other threads
  do with \<open>SignalStop\<close> and \<open>WaitForStop\<close>, any number of times and interleaved in any way
  with the steps of \<open>w\<close>, the loop is left at most once, and once a \<open>WaitForStop\<close> has
  returned it has been left exactly once and the coordinator is not running. When thread
  \<open>c\<close> calls \<open>SignalStop\<close> \<open>k\<close> times and then \<open>WaitForStop\<close>, the state in which it blocks
  is the same for every \<open>k\<close>: the stop event is signaled by \<open>WaitForStop\<close> itself, and the
  caller does not move while the stopped event is not signaled; six steps of \<open>w\<close> later
  the loop has been left once and \<open>Run\<close> has returned, and the next step of \<open>c\<close> returns
  from \<open>WaitForStop\<close>. When the coordinator is not running, \<open>WaitForStop\<close> returns at its
  first step and leaves the coordinator as it is.
\<close>

lemma stop_in_loop_is_idempotent:
  "(in_loop w (s :: 'u sys) \<longrightarrow>
      (\<forall>as. (\<forall>a \<in> set as. stop_or_wait w a) \<longrightarrow>
         (let s' = exec asserts urun as s
          in crash s' = None \<and> exits s' \<le> exits s + 1 \<and>
             (wait_returns s' \<noteq> wait_returns s \<longrightarrow>
                exits s' = exits s + 1 \<and> \<not> IsRunning (coord s')))) \<and>
      (\<forall>c k. c \<noteq> w \<longrightarrow>
         exec asserts urun (stop_k_then_wait c k) s = exec asserts urun (stop_k_then_wait c 0) s \<and>
         (let b = exec asserts urun (stop_k_then_wait c k) s
          in m_StopEvent (coord b) = Some True \<and> pcs b c = Wait_Block \<and>
             step asserts urun (Step c) b = b) \<and>
         (let s' = exec asserts urun (stop_k_then_wait c k @ replicate 6 (Step w) @ [Step c]) s
          in crash s' = None \<and> exits s' = exits s + 1 \<and>
             wait_returns s' = wait_returns s + 1 \<and> \<not> IsRunning (coord s') \<and>
             pcs s' c = Idle \<and> pcs s' w = Idle))) \<and>
   (crash s = None \<and> pcs s c = Wait_Entry \<and> \<not> m_IsRunning (coord s) \<longrightarrow>
      (let s' = step asserts urun (Step c) s
       in crash s' = None \<and> pcs s' c = Idle \<and> wait_returns s' = wait_returns s + 1 \<and>
          coord s' = coord s))"
proof (intro conjI impI allI)
  fix as :: "'u action list"
  assume "in_loop w s" "\<forall>a \<in> set as. stop_or_wait w a"
  then show "let s' = exec asserts urun as s
          in crash s' = None \<and> exits s' \<le> exits s + 1 \<and>
             (wait_returns s' \<noteq> wait_returns s \<longrightarrow>
                exits s' = exits s + 1 \<and> \<not> IsRunning (coord s'))"
    by (rule stop_is_safe)
next
  fix c k assume "in_loop w s" "c \<noteq> w"
  then show "exec asserts urun (stop_k_then_wait c k) s = exec asserts urun (stop_k_then_wait c 0) s"
    by (simp add: stop_k_then_wait_blocks)
next
  fix c k assume L: "in_loop w s" and c: "c \<noteq> w"
  then show "let b = exec asserts urun (stop_k_then_wait c k) s
          in m_StopEvent (coord b) = Some True \<and> pcs b c = Wait_Block \<and>
             step asserts urun (Step c) b = b"
    by (simp add: stop_k_then_wait_blocks[OF L c] in_loop_def stop_set_def sys_defs)
next
  fix c k assume "in_loop w s" "c \<noteq> w"
  then show "let s' = exec asserts urun (stop_k_then_wait c k @ replicate 6 (Step w) @ [Step c]) s
          in crash s' = None \<and> exits s' = exits s + 1 \<and>
             wait_returns s' = wait_returns s + 1 \<and> \<not> IsRunning (coord s') \<and>
             pcs s' c = Idle \<and> pcs s' w = Idle"
    by (rule stop_then_wait_returns)
next
  assume "crash s = None \<and> pcs s c = Wait_Entry \<and> \<not> m_IsRunning (coord s)"
  then show "let s' = step asserts urun (Step c) s
       in crash s' = None \<and> pcs s' c = Idle \<and> wait_returns s' = wait_returns s + 1 \<and>
          coord s' = coord s"
    by (simp add: sys_defs)
qed

lemma looping_reached:
  "exec False count_calls ([Call 0 Op_Run] @ replicate 8 (Step 0)) (ThreadObj_ctor 0 [] []) = looping"
  by (simp add: looping_def ThreadObj_ctor_def sys_defs numeral_eq_Suc)

lemma stop_in_loop_example:
  "in_loop 0 looping \<and>
   (let s' = exec False count_calls
               [Call 1 Op_SignalStop, Step 1, Step 0, Step 1, Step 0, Call 2 Op_SignalStop,
                Call 1 Op_WaitForStop, Step 2, Step 0, Step 1, Step 2, Step 0, Step 0, Step 1, Step 1]
               looping
    in crash s' = None \<and> wait_returns s' = 1 \<and> exits s' = 1 \<and> \<not> IsRunning (coord s')) \<and>
   exec False count_calls (stop_k_then_wait 1 3) looping =
     exec False count_calls (stop_k_then_wait 1 0) looping \<and>
   (let s' = exec False count_calls (stop_k_then_wait 1 3 @ replicate 6 (Step 0) @ [Step 1]) looping
    in crash s' = None \<and> exits s' = 1 \<and> wait_returns s' = 1 \<and> \<not> IsRunning (coord s') \<and>
       pcs s' 1 = Idle \<and> pcs s' 0 = Idle) \<and>
   (let s = step False count_calls (Call 1 Op_WaitForStop) (ThreadObj_ctor 0 [] []);
        s' = step False count_calls (Step 1) s
    in pcs s 1 = Wait_Entry \<and> \<not> m_IsRunning (coord s) \<and>
       crash s' = None \<and> pcs s' 1 = Idle \<and> wait_returns s' = 1 \<and> coord s' = coord s)"
proof -
  let ?sched = "[Call 1 Op_SignalStop, Step 1, Step 0, Step 1, Step 0, Call 2 Op_SignalStop,
                Call 1 Op_WaitForStop, Step 2, Step 0, Step 1, Step 2, Step 0, Step 0, Step 1, Step 1]
                :: nat action list"
  let ?s3 = "step False count_calls (Call 1 Op_WaitForStop) (ThreadObj_ctor 0 [] [])"
  have L: "in_loop 0 looping"
    by (simp add: in_loop_def looping_def)
  have ok: "\<forall>a \<in> set ?sched. stop_or_wait 0 a"
    by (simp add: stop_or_wait_def)
  have wr: "wait_returns (exec False count_calls ?sched looping) = 1"
    by code_simp
  have e0: "exits looping = 0" "wait_returns looping = 0"
    by (simp_all add: looping_def)
  have h3: "crash ?s3 = None \<and> pcs ?s3 1 = Wait_Entry \<and> \<not> m_IsRunning (coord ?s3)"
    by (simp add: ThreadObj_ctor_def sys_defs)
  note T = stop_in_loop_is_idempotent[where w = 0 and s = looping and asserts = False and urun = count_calls]
  note AB = T[THEN conjunct1, THEN mp, OF L]
  from AB[THEN conjunct1, THEN spec, THEN mp, OF ok] wr e0
  have A: "let s' = exec False count_calls ?sched looping
    in crash s' = None \<and> wait_returns s' = 1 \<and> exits s' = 1 \<and> \<not> IsRunning (coord s')"
    by (simp add: Let_def)
  from AB[THEN conjunct2, THEN spec, THEN spec, of 1 3] e0
  have B: "exec False count_calls (stop_k_then_wait 1 3) looping =
     exec False count_calls (stop_k_then_wait 1 0) looping \<and>
   (let s' = exec False count_calls (stop_k_then_wait 1 3 @ replicate 6 (Step 0) @ [Step 1]) looping
    in crash s' = None \<and> exits s' = 1 \<and> wait_returns s' = 1 \<and> \<not> IsRunning (coord s') \<and>
       pcs s' 1 = Idle \<and> pcs s' 0 = Idle)"
    by (simp add: Let_def)
  from stop_in_loop_is_idempotent[where s = ?s3 and c = 1 and asserts = False and urun = count_calls,
         THEN conjunct2, THEN mp, OF h3] h3
  have C: "let s = ?s3; s' = step False count_calls (Step 1) s
    in pcs s 1 = Wait_Entry \<and> \<not> m_IsRunning (coord s) \<and>
       crash s' = None \<and> pcs s' 1 = Idle \<and> wait_returns s' = 1 \<and> coord s' = coord s"
    by (simp add: Let_def ThreadObj_ctor_def step_def goto_def)
  show ?thesis
    by (intro conjI, rule L, rule A, rule B[THEN conjunct1], rule B[THEN conjunct2], rule C)
qed


subsection \<open>Stopping in the start-up window\<close>

lemma signal_once_stoppable:
  assumes "stoppable c s"
  shows "exec asserts urun [Call c Op_SignalStop, Step c, Step c] s = stop_set s"
proof -
  from assms have "pcs s c = Idle" "crash s = None" "m_IsRunning (coord s)"
      "m_StopEvent (coord s) \<noteq> None"
    by (simp_all add: stoppable_def)
  moreover from this have "(pcs s)(c := Idle) = pcs s" by (simp add: fun_upd_idem)
  ultimately show ?thesis
    by (auto simp: stop_set_def sys_defs)
qed

lemma stoppable_stop_set: "stoppable c s \<Longrightarrow> stoppable c (stop_set s)"
  by (auto simp: stoppable_def stop_set_def)

lemma signal_k_stoppable:
  assumes "stoppable c s"
  shows "exec asserts urun (concat (replicate k [Call c Op_SignalStop, Step c, Step c])) s =
         (if k = 0 then s else stop_set s)"
  using assms
proof (induction k arbitrary: s)
  case 0 then show ?case by simp
next
  case (Suc k)
  have "exec asserts urun (concat (replicate (Suc k) [Call c Op_SignalStop, Step c, Step c])) s
      = exec asserts urun (concat (replicate k [Call c Op_SignalStop, Step c, Step c])) (stop_set s)"
    using signal_once_stoppable[OF Suc.prems, of asserts urun] by simp
  also have "\<dots> = (if k = 0 then stop_set s else stop_set (stop_set s))"
    using Suc.IH[OF stoppable_stop_set[OF Suc.prems]] .
  finally show ?case by (simp add: stop_set_idem)
qed

lemma wait_to_block_stoppable:
  assumes "stoppable c s"
  shows "exec asserts urun [Call c Op_WaitForStop, Step c, Step c] s =
         (stop_set s)\<lparr>pcs := (pcs s)(c := Wait_Block)\<rparr>"
proof -
  from assms have "pcs s c = Idle" "crash s = None" "m_IsRunning (coord s)"
      "m_StopEvent (coord s) \<noteq> None"
    by (simp_all add: stoppable_def)
  then show ?thesis
    by (auto simp: stop_set_def sys_defs)
qed

lemma stop_k_then_wait_stoppable:
  assumes "stoppable c s"
  shows "exec asserts urun (stop_k_then_wait c k) s =
         (stop_set s)\<lparr>pcs := (pcs s)(c := Wait_Block)\<rparr>"
proof -
  have "exec asserts urun (stop_k_then_wait c k) s =
        exec asserts urun [Call c Op_WaitForStop, Step c, Step c]
          (if k = 0 then s else stop_set s)"
    unfolding stop_k_then_wait_def exec_append signal_k_stoppable[OF assms] ..
  also have "\<dots> = (stop_set s)\<lparr>pcs := (pcs s)(c := Wait_Block)\<rparr>"
    using wait_to_block_stoppable[OF assms, of asserts urun]
      wait_to_block_stoppable[OF stoppable_stop_set[OF assms], of asserts urun]
    by (simp add: stop_set_def)
  finally show ?thesis .
qed

lemma startup_window_state:
  "let s = exec asserts count_calls startup_window (ThreadObj_ctor 0 [] [])
   in stoppable 1 s \<and> pcs s 0 = Run_ResetStop \<and> m_StopEvent (coord s) = Some False \<and>
      m_ThreadStoppedEvent (coord s) = Some False \<and> exits s = 0 \<and> wait_returns s = 0"
  by (auto simp: startup_window_def stoppable_def ThreadObj_ctor_def sys_defs numeral_eq_Suc)

lemma stop_erased_step0:
  "stop_erased s \<Longrightarrow> stop_erased (step asserts count_calls (Step 0) s)"
  unfolding stop_erased_def
  by (cases "pcs s 0")
     (auto simp: step_def thread_step_def goto_def logmsg_def crashed_def ClearEvent_def
                 count_calls_def Let_def)

lemma stop_erased_step1:
  "stop_erased s \<Longrightarrow> stop_erased (step asserts count_calls (Step 1) s)"
  unfolding stop_erased_def
  by (auto simp: step_def thread_step_def goto_def logmsg_def crashed_def ClearEvent_def
                 count_calls_def Let_def)

lemma stop_erased_step:
  "stop_erased s \<Longrightarrow> stop_erased (step asserts count_calls (Step (if b then 0 else 1)) s)"
  by (cases b) (simp_all only: if_True if_False stop_erased_step0 stop_erased_step1)

lemma stop_erased_steps:
  "stop_erased s \<Longrightarrow> stop_erased (exec asserts count_calls (steps_of bs) s)"
  by (induction bs arbitrary: s) (simp_all add: steps_of_def stop_erased_step)

lemma blocked_in_startup_window:
  "stop_erased (exec asserts count_calls (startup_window @ stop_k_then_wait 1 k)
                  (ThreadObj_ctor 0 [] []))"
proof -
  let ?s = "exec asserts count_calls startup_window (ThreadObj_ctor 0 [] [])"
  have S: "stoppable 1 ?s" "pcs ?s 0 = Run_ResetStop" "m_StopEvent (coord ?s) = Some False"
      "m_ThreadStoppedEvent (coord ?s) = Some False" "exits ?s = 0" "wait_returns ?s = 0"
    using startup_window_state[of asserts] by (simp_all add: Let_def)
  then have "stop_erased ((stop_set ?s)\<lparr>pcs := (pcs ?s)(1 := Wait_Block)\<rparr>)"
    by (simp add: stop_erased_def stoppable_def stop_set_def)
  then show ?thesis
    by (simp only: exec_append stop_k_then_wait_stoppable[OF S(1)])
qed

text \<open>
  C6. The claim: for a running coordinator, zero, one or many calls of \<open>SignalStop\<close>
  before \<open>WaitForStop\<close> give the same outcome, the work loop is left exactly once,
  because \<open>WaitForStop\<close> sets the stop signal itself before it blocks.
  The code sets \<open>m_IsRunning\<close> at the start of \<open>Run\<close>, before the events are made and
  before \<open>Reset()\<close> clears them, and \<open>SignalStop\<close> and \<open>WaitForStop\<close> test only that flag.
  When thread 0 has made both events and not yet called \<open>Reset()\<close>, thread 1 gets past
  the test, calls \<open>SignalStop\<close> \<open>k\<close> times (any \<open>k\<close>), sets the stop event again in
  \<open>WaitForStop\<close> and blocks; \<open>Reset()\<close> then clears the stop event, and however the two
  threads go on from there (with a client that never asks to stop) the loop is never
  left and \<open>WaitForStop\<close> never returns: after forty more steps of thread 0 the client
  has been called nineteen times and the stop event is clear. When thread 0 has only set
  the flag, the first call that thread 1 makes goes through the null stop event.
\<close>

theorem C6_stop_lost_in_startup_window:
  "(let s = exec asserts count_calls startup_window (ThreadObj_ctor 0 [] [])
    in crash s = None \<and> IsRunning (coord s) \<and> pcs s 0 = Run_ResetStop) \<and>
   (let s = exec asserts count_calls (startup_window @ stop_k_then_wait 1 k @ steps_of bs)
              (ThreadObj_ctor 0 [] [])
    in crash s = None \<and> IsRunning (coord s) \<and> pcs s 1 = Wait_Block \<and>
       wait_returns s = 0 \<and> exits s = 0 \<and>
       (pcs s 0 = Run_ResetStop \<or> pcs s 0 = Run_ResetStopped \<or> pcs s 0 = Run_LoopStart \<or>
        pcs s 0 = Run_LoopCond \<or> pcs s 0 = Run_Poll)) \<and>
   (let s = exec False count_calls (startup_window @ stop_k_then_wait 1 2 @
                replicate 40 (Step 0) @ [Step 1]) (ThreadObj_ctor 0 [] [])
    in m_StopEvent (coord s) = Some False \<and> pcs s 1 = Wait_Block \<and> m_UserFunc (coord s) = 19) \<and>
   (let s = exec False count_calls flag_set_only (ThreadObj_ctor 0 [] [])
    in crash s = None \<and> IsRunning (coord s) \<and> m_StopEvent (coord s) = None) \<and>
   (let s = exec False count_calls (flag_set_only @ stop_k_then_wait 1 0) (ThreadObj_ctor 0 [] [])
    in crash s = Some NullDeref \<and> pcs s 1 = Wait_SetStop \<and> exits s = 0) \<and>
   (let s = exec False count_calls (flag_set_only @ stop_k_then_wait 1 1) (ThreadObj_ctor 0 [] [])
    in crash s = Some NullDeref \<and> pcs s 1 = Sig_Set \<and> exits s = 0) \<and>
   (let s = exec True count_calls (flag_set_only @ stop_k_then_wait 1 0) (ThreadObj_ctor 0 [] [])
    in crash s = Some AssertFailed \<and> pcs s 1 = Wait_SetStop \<and> exits s = 0)"
proof (intro conjI)
  show "let s = exec asserts count_calls startup_window (ThreadObj_ctor 0 [] [])
    in crash s = None \<and> IsRunning (coord s) \<and> pcs s 0 = Run_ResetStop"
    using startup_window_state[of asserts] by (simp add: Let_def stoppable_def IsRunning_def)
next
  have "stop_erased (exec asserts count_calls (startup_window @ stop_k_then_wait 1 k @ steps_of bs)
              (ThreadObj_ctor 0 [] []))"
    using stop_erased_steps[OF blocked_in_startup_window, of asserts bs asserts k]
    by (simp add: exec_append)
  then show "let s = exec asserts count_calls (startup_window @ stop_k_then_wait 1 k @ steps_of bs)
              (ThreadObj_ctor 0 [] [])
    in crash s = None \<and> IsRunning (coord s) \<and> pcs s 1 = Wait_Block \<and>
       wait_returns s = 0 \<and> exits s = 0 \<and>
       (pcs s 0 = Run_ResetStop \<or> pcs s 0 = Run_ResetStopped \<or> pcs s 0 = Run_LoopStart \<or>
        pcs s 0 = Run_LoopCond \<or> pcs s 0 = Run_Poll)"
    by (auto simp: stop_erased_def Let_def IsRunning_def)
qed code_simp+


section \<open>Properties of both coordinators\<close>

text \<open>
  C8, as the claim states it: a call that is a harmless no-op is at most logged and never
  raised as an error, in each coordinator. In \<open>SimpleThreadCoord\<close> a \<open>Run\<close> on a
  coordinator that is running, or that has run, throws \<open>nik::Error\<close>.
\<close>

theorem C8_SimpleThreadCoord_Run_raises:
  "SimpleThreadCoord_Run False True True [] simple_running =
     Some (Inl (Error ''SimpleThreadCoord::Run->Events have already been created'')) \<and>
   SimpleThreadCoord_Run False True True [] simple_stopped =
     Some (Inl (Error ''SimpleThreadCoord::Run->Events have already been created''))"
  by (simp add: SimpleThreadCoord_Run_def simple_running_def simple_stopped_def)

text \<open>
  C8, amended. In \<open>ThreadCoord\<close>, \<open>Run\<close> on a running coordinator and \<open>SignalStop\<close> and
  \<open>WaitForStop\<close> on one that is not running write one line to the log and return; the
  coordinator is unchanged and nothing is raised. In \<open>SimpleThreadCoord\<close>, \<open>Run\<close> on a
  coordinator whose events exist throws \<open>nik::Error\<close> (and stops at the assertion before
  that in a build with assertions); \<open>SignalStop\<close> and \<open>WaitForStop\<close> on a coordinator
  whose \<open>Run\<close> has returned signal the stop event and return, without a log line.
\<close>

theorem C8_misuse_is_logged_or_raised:
  "(crash s = None \<and> pcs s t = Run_Entry \<and> m_IsRunning (coord s) \<longrightarrow>
      (let s' = step asserts urun (Step t) s
       in crash s' = None \<and> coord s' = coord s \<and>
          pcs s' t = (if in_tf s t then TF_Cleanup else Idle) \<and>
          logged s' = logged s @
            [''Warning: Thread already running, attempted to call ThreadCoord::Run()''])) \<and>
   (crash s = None \<and> pcs s t = Sig_Entry \<and> \<not> m_IsRunning (coord s) \<longrightarrow>
      (let s' = step asserts urun (Step t) s
       in crash s' = None \<and> coord s' = coord s \<and> pcs s' t = Idle \<and>
          logged s' = logged s @
            [''[ThreadCoord::SignalStop] Thread is not running, cannot signal stop''])) \<and>
   (crash s = None \<and> pcs s t = Wait_Entry \<and> \<not> m_IsRunning (coord s) \<longrightarrow>
      (let s' = step asserts urun (Step t) s
       in crash s' = None \<and> coord s' = coord s \<and> pcs s' t = Idle \<and>
          logged s' = logged s @
            [''[ThreadCoord::WaitForStop] Thread is not running, skipping wait.''])) \<and>
   (m_StopEvent c \<noteq> None \<or> m_ThreadStoppedEvent c \<noteq> None \<longrightarrow>
      SimpleThreadCoord_Run asserts ok1 ok2 polls c =
        Some (Inl (if asserts then AssertFailed
                   else Error ''SimpleThreadCoord::Run->Events have already been created''))) \<and>
   (m_StopEvent c \<noteq> None \<and> m_ThreadStoppedEvent c = Some True \<longrightarrow>
      SimpleThreadCoord_SignalStop asserts c = Inr (c\<lparr>m_StopEvent := Some True\<rparr>) \<and>
      SimpleThreadCoord_WaitForStop asserts later c = Some (Inr (c\<lparr>m_StopEvent := Some True\<rparr>)))"
  by (auto simp: sys_defs SimpleThreadCoord_Run_def SimpleThreadCoord_SignalStop_def
        SimpleThreadCoord_WaitForStop_def)

theorem C8_misuse_is_logged_or_raised_witness:
  "(let s = step False count_calls (Call 1 Op_Run) looping;
        s' = step False count_calls (Step 1) s
    in pcs s 1 = Run_Entry \<and> m_IsRunning (coord s) \<and> crash s' = None \<and> coord s' = coord s \<and>
       pcs s' 1 = Idle \<and>
       logged s' = logged s @
         [''Warning: Thread already running, attempted to call ThreadCoord::Run()'']) \<and>
   (let s = step False count_calls (Call 1 Op_SignalStop) (ThreadObj_ctor 0 [] []);
        s' = step False count_calls (Step 1) s
    in pcs s 1 = Sig_Entry \<and> \<not> m_IsRunning (coord s) \<and> crash s' = None \<and>
       coord s' = coord s \<and> pcs s' 1 = Idle \<and>
       logged s' = logged s @
         [''[ThreadCoord::SignalStop] Thread is not running, cannot signal stop'']) \<and>
   (let s = step False count_calls (Call 1 Op_WaitForStop) (ThreadObj_ctor 0 [] []);
        s' = step False count_calls (Step 1) s
    in pcs s 1 = Wait_Entry \<and> \<not> m_IsRunning (coord s) \<and> crash s' = None \<and>
       coord s' = coord s \<and> pcs s' 1 = Idle \<and>
       logged s' = logged s @
         [''[ThreadCoord::WaitForStop] Thread is not running, skipping wait.'']) \<and>
   SimpleThreadCoord_Run False True True [] simple_running =
     Some (Inl (Error ''SimpleThreadCoord::Run->Events have already been created'')) \<and>
   SimpleThreadCoord_Run True True True [] simple_running = Some (Inl AssertFailed) \<and>
   SimpleThreadCoord_SignalStop False simple_stopped = Inr simple_stopped \<and>
   SimpleThreadCoord_WaitForStop False False simple_stopped = Some (Inr simple_stopped)"
proof -
  let ?a = "step False count_calls (Call 1 Op_Run) looping"
  let ?b = "step False count_calls (Call 1 Op_SignalStop) (ThreadObj_ctor 0 [] [])"
  let ?c = "step False count_calls (Call 1 Op_WaitForStop) (ThreadObj_ctor 0 [] [])"
  have a: "crash ?a = None \<and> pcs ?a 1 = Run_Entry \<and> m_IsRunning (coord ?a)"
    by code_simp
  have a': "\<not> in_tf ?a 1" by code_simp
  have b: "crash ?b = None \<and> pcs ?b 1 = Sig_Entry \<and> \<not> m_IsRunning (coord ?b)"
    by code_simp
  have c: "crash ?c = None \<and> pcs ?c 1 = Wait_Entry \<and> \<not> m_IsRunning (coord ?c)"
    by code_simp
  have d: "m_StopEvent simple_running \<noteq> None \<or> m_ThreadStoppedEvent simple_running \<noteq> None"
    by (simp add: simple_running_def)
  have e: "m_StopEvent simple_stopped \<noteq> None \<and> m_ThreadStoppedEvent simple_stopped = Some True"
    by (simp add: simple_stopped_def)
  have e': "simple_stopped\<lparr>m_StopEvent := Some True\<rparr> = simple_stopped"
    by (simp add: simple_stopped_def)
  from C8_misuse_is_logged_or_raised[where s = ?a and t = 1 and asserts = False
         and urun = count_calls, THEN conjunct1, THEN mp, OF a] a a'
  have A: "let s = ?a; s' = step False count_calls (Step 1) s
    in pcs s 1 = Run_Entry \<and> m_IsRunning (coord s) \<and> crash s' = None \<and> coord s' = coord s \<and>
       pcs s' 1 = Idle \<and>
       logged s' = logged s @
         [''Warning: Thread already running, attempted to call ThreadCoord::Run()'']"
    by (simp add: Let_def)
  from C8_misuse_is_logged_or_raised[where s = ?b and t = 1 and asserts = False
         and urun = count_calls, THEN conjunct2, THEN conjunct1, THEN mp, OF b] b
  have B: "let s = ?b; s' = step False count_calls (Step 1) s
    in pcs s 1 = Sig_Entry \<and> \<not> m_IsRunning (coord s) \<and> crash s' = None \<and>
       coord s' = coord s \<and> pcs s' 1 = Idle \<and>
       logged s' = logged s @
         [''[ThreadCoord::SignalStop] Thread is not running, cannot signal stop'']"
    by (simp add: Let_def)
  from C8_misuse_is_logged_or_raised[where s = ?c and t = 1 and asserts = False
         and urun = count_calls, THEN conjunct2, THEN conjunct2, THEN conjunct1, THEN mp, OF c] c
  have C: "let s = ?c; s' = step False count_calls (Step 1) s
    in pcs s 1 = Wait_Entry \<and> \<not> m_IsRunning (coord s) \<and> crash s' = None \<and>
       coord s' = coord s \<and> pcs s' 1 = Idle \<and>
       logged s' = logged s @
         [''[ThreadCoord::WaitForStop] Thread is not running, skipping wait.'']"
    by (simp add: Let_def)
  from C8_misuse_is_logged_or_raised[where c = simple_running and asserts = False
         and ?ok1.0 = True and ?ok2.0 = True and polls = "[]", THEN conjunct2,
         THEN conjunct2, THEN conjunct2, THEN conjunct1, THEN mp, OF d]
  have D1: "SimpleThreadCoord_Run False True True [] simple_running =
     Some (Inl (Error ''SimpleThreadCoord::Run->Events have already been created''))"
    by simp
  from C8_misuse_is_logged_or_raised[where c = simple_running and asserts = True
         and ?ok1.0 = True and ?ok2.0 = True and polls = "[]", THEN conjunct2,
         THEN conjunct2, THEN conjunct2, THEN conjunct1, THEN mp, OF d]
  have D2: "SimpleThreadCoord_Run True True True [] simple_running = Some (Inl AssertFailed)"
    by simp
  note S = C8_misuse_is_logged_or_raised[where c = simple_stopped and asserts = False
             and later = False, THEN conjunct2, THEN conjunct2, THEN conjunct2, THEN conjunct2,
             THEN mp, OF e]
  from S e' have E1: "SimpleThreadCoord_SignalStop False simple_stopped = Inr simple_stopped"
    by simp
  from S e' have E2:
    "SimpleThreadCoord_WaitForStop False False simple_stopped = Some (Inr simple_stopped)"
    by simp
  show ?thesis
    by (intro conjI, rule A, rule B, rule C, rule D1, rule D2, rule E1, rule E2)
qed

text \<open>
  C10, as the claim states it: copying a coordinator transfers only the work function, so
  that the assignment in \<open>ThreadObj::Run\<close> always starts from absent signals that \<open>Run\<close>
  then creates. At a second \<open>ThreadObj::Run\<close>, after the first thread has ended, the
  coordinator starts \<open>Run\<close> with the events of the first run (the stopped event still
  signaled), and \<open>Run\<close> reaches the loop without a call of \<open>CreateEvent\<close> (both would fail
  here). And the copy constructor of \<open>SimpleThreadCoord\<close>, the compiler's, copies the event
  pointers.
\<close>

theorem C10_signals_present_on_second_run:
  "(let s = exec False quit_at_once run_twice (ThreadObj_ctor () [True, True, False, False] [])
    in crash s = None \<and> pcs s 0 = Run_Entry \<and> m_StopEvent (coord s) = Some False \<and>
       m_ThreadStoppedEvent (coord s) = Some True \<and> os_events s = [False, False]) \<and>
   (let s = exec False quit_at_once (run_twice @ replicate 7 (Step 0))
              (ThreadObj_ctor () [True, True, False, False] [])
    in crash s = None \<and> pcs s 0 = Run_ClearRunning \<and> calls s = 2 \<and> os_events s = [False, False]) \<and>
   m_StopEvent (SimpleThreadCoord_copy simple_running) = Some False \<and>
   m_ThreadStoppedEvent (SimpleThreadCoord_copy simple_running) = Some False"
  by code_simp

text \<open>
  C10, amended. \<open>operator=\<close> of both coordinators replaces the work function and leaves
  the events (and the flag) of the destination as they are; the copy constructor of
  \<open>ThreadCoord\<close> makes a coordinator with the work function, no events and the flag
  cleared; the copy constructor of \<open>SimpleThreadCoord\<close> copies all members.
  \<open>ThreadObj::Run\<close> leaves the events and the flag of \<open>m_ThreadCoord\<close> as they are, and
  where it starts the thread the coordinator has the work function of the argument; so
  the first \<open>ThreadObj::Run\<close> of a \<open>ThreadObj\<close> starts from absent events.
\<close>

theorem C10_copies_transfer_the_work_function:
  "ThreadCoord_assign this rhs =
     \<lparr>m_StopEvent = m_StopEvent this, m_ThreadStoppedEvent = m_ThreadStoppedEvent this,
      m_UserFunc = m_UserFunc rhs, m_IsRunning = m_IsRunning this\<rparr> \<and>
   ThreadCoord_copy rhs =
     \<lparr>m_StopEvent = None, m_ThreadStoppedEvent = None, m_UserFunc = m_UserFunc rhs,
      m_IsRunning = False\<rparr> \<and>
   SimpleThreadCoord_assign sthis srhs =
     \<lparr>m_StopEvent = m_StopEvent sthis, m_ThreadStoppedEvent = m_ThreadStoppedEvent sthis,
      m_UserFunc = m_UserFunc srhs\<rparr> \<and>
   SimpleThreadCoord_copy srhs = srhs \<and>
   (let s' = ThreadObj_Run asserts rhs t w s
    in m_StopEvent (coord s') = m_StopEvent (coord s) \<and>
       m_ThreadStoppedEvent (coord s') = m_ThreadStoppedEvent (coord s) \<and>
       m_IsRunning (coord s') = m_IsRunning (coord s) \<and>
       (crash s' = None \<and> pcs s' w \<noteq> pcs s w \<longrightarrow>
          m_UserFunc (coord s') = m_UserFunc rhs \<and> pcs s' w = Run_Entry)) \<and>
   (let s0 = ThreadObj_ctor u evs ths; s1 = ThreadObj_Run asserts rhs t w s0
    in m_StopEvent (coord s1) = None \<and> m_ThreadStoppedEvent (coord s1) = None \<and>
       \<not> m_IsRunning (coord s1))"
  by (auto simp: ThreadCoord_assign_def ThreadCoord_copy_def SimpleThreadCoord_assign_def
        SimpleThreadCoord_copy_def ThreadObj_Run_def ThreadObj_ctor_def crashed_def Let_def)


theorem C10_copies_transfer_the_work_function_witness:
  "(let s = ThreadObj_ctor () [] []; s' = ThreadObj_Run False (ThreadCoord_ctor ()) 1 0 s
    in crash s' = None \<and> pcs s 0 = Idle \<and> pcs s' 0 = Run_Entry \<and>
       m_StopEvent (coord s') = None \<and> m_ThreadStoppedEvent (coord s') = None \<and>
       \<not> m_IsRunning (coord s') \<and> m_UserFunc (coord s') = ()) \<and>
   (let s = exec False quit_at_once
              ([Call 1 (Op_ThreadObj_Run (ThreadCoord_ctor ()) 0)] @ replicate 13 (Step 0))
              (ThreadObj_ctor () [] []);
        s' = ThreadObj_Run False (ThreadCoord_ctor ()) 1 0 s
    in m_StopEvent (coord s) = Some False \<and> m_ThreadStoppedEvent (coord s) = Some True \<and>
       m_StopEvent (coord s') = Some False \<and> m_ThreadStoppedEvent (coord s') = Some True \<and>
       \<not> m_IsRunning (coord s'))"
proof -
  let ?s = "ThreadObj_ctor () [] [] :: unit sys"
  let ?s' = "ThreadObj_Run False (ThreadCoord_ctor ()) 1 0 ?s"
  let ?q = "exec False quit_at_once
              ([Call 1 (Op_ThreadObj_Run (ThreadCoord_ctor ()) 0)] @ replicate 13 (Step 0))
              (ThreadObj_ctor () [] [])"
  have h: "crash ?s' = None \<and> pcs ?s' 0 \<noteq> pcs ?s 0" "pcs ?s 0 = Idle"
    by code_simp+
  have u: "m_UserFunc (ThreadCoord_ctor ()) = ()" by simp
  have q: "m_StopEvent (coord ?q) = Some False" "m_ThreadStoppedEvent (coord ?q) = Some True"
    "\<not> m_IsRunning (coord ?q)"
    by code_simp+
  from C10_copies_transfer_the_work_function[where asserts = False
         and rhs = "ThreadCoord_ctor ()" and t = 1 and w = 0 and s = ?s,
         THEN conjunct2, THEN conjunct2, THEN conjunct2, THEN conjunct2, THEN conjunct1] h
  have A: "let s = ?s; s' = ThreadObj_Run False (ThreadCoord_ctor ()) 1 0 s
    in crash s' = None \<and> pcs s 0 = Idle \<and> pcs s' 0 = Run_Entry \<and>
       m_StopEvent (coord s') = None \<and> m_ThreadStoppedEvent (coord s') = None \<and>
       \<not> m_IsRunning (coord s') \<and> m_UserFunc (coord s') = ()"
    by (simp add: Let_def ThreadObj_ctor_def)
  from C10_copies_transfer_the_work_function[where asserts = False
         and rhs = "ThreadCoord_ctor ()" and t = 1 and w = 0 and s = ?q,
         THEN conjunct2, THEN conjunct2, THEN conjunct2, THEN conjunct2, THEN conjunct1] q
  have B: "let s = ?q; s' = ThreadObj_Run False (ThreadCoord_ctor ()) 1 0 s
    in m_StopEvent (coord s) = Some False \<and> m_ThreadStoppedEvent (coord s) = Some True \<and>
       m_StopEvent (coord s') = Some False \<and> m_ThreadStoppedEvent (coord s') = Some True \<and>
       \<not> m_IsRunning (coord s')"
    by (simp add: Let_def)
  show ?thesis
    by (intro conjI, rule A, rule B)
qed


section \<open>Properties of the logger\<close>

lemmas log_defs =
  lstep_def dtor_step_def drain_step_def producer_step_def ScopeLock_ctor_def ScopeLock_dtor_def
  ForceWrite_def CloseFile_def OpenFile_def ofstream_open_def ofstream_close_def
  ofstream_write_def lcrashed_def Let_def

text \<open>
  C1. The claim: after any successful appends and a teardown, every appended byte is in
  the destination once and in order, also when the teardown races with the last drain
  cycle. The code does not wait for the thread (the destructor sleeps 50 ms; "todo setup
  event on thread quit"). When the thread has taken the text out of the buffer and has
  not written it by the end of that sleep, the destructor finds the buffer empty and
  closes the file: the text is held by a thread that then works on a destroyed object,
  and the file is empty. When the thread writes between the destructor's \<open>ForceWrite\<close>
  and its \<open>CloseFile\<close>, the later text \<open>B\<close> is in the file before the earlier \<open>A\<close>.
\<close>

theorem C1_teardown_races_with_drain:
  "(let s = lexec False lost_on_shutdown log_active
    in log_crash s = None \<and> dtor s = T_Done \<and> files s ''log.txt'' = Some [] \<and>
       drain s = D_Write \<and> outBuffer s = ''A'' \<and> \<not> of_open (m_Of s)) \<and>
   (let s = lexec False (lost_on_shutdown @ [Drain_step]) log_active
    in log_crash s = Some UseAfterFree \<and> files s ''log.txt'' = Some []) \<and>
   (let s = lexec False reordered_on_shutdown log_active
    in log_crash s = None \<and> dtor s = T_Done \<and> files s ''log.txt'' = Some ''BA'')"
  by code_simp

text \<open>
  C2, as the claim states it: the text of a \<open>Write\<close> that times out is dropped, not kept
  for a later retry. \<open>Logger::Flush\<close> clears \<open>m_Os\<close> only when \<open>Write\<close> has returned true:
  after the timeout the text \<open>x\<close> is still in \<open>m_Os\<close>, and the next \<open>Flush\<close> appends it
  to the buffer, ahead of the text \<open>y\<close> written since.
\<close>

theorem C2_timed_out_text_is_retried:
  "(let s1 = snd (Flush False (\<lambda>timeOut. WAIT_TIMEOUT) (Logger_shift ''x'' log_active));
        s2 = snd (Flush False (\<lambda>timeOut. WAIT_OBJECT_0) (Logger_shift ''y'' s1))
    in m_Os s1 = ''x'' \<and> m_Buffer s1 = [] \<and> m_Os s2 = [] \<and> m_Buffer s2 = ''xy'')"
  by code_simp

text \<open>
  C2, amended. \<open>Write\<close> waits for the lock with the timeout \<open>Wait_Time_glob\<close>, 10 ms.
  When it gets the lock it appends the text to \<open>m_Buffer\<close> and returns true, leaving the
  rest of the logger as it was. When the wait times out it returns false, raises nothing
  and changes nothing; \<open>Flush\<close> then leaves the text in \<open>m_Os\<close>, and the next \<open>Flush\<close>
  that gets the lock appends that text and the text written since to the buffer.
\<close>

theorem C2_Write_and_Flush:
  "Wait_Time_glob = 10 \<and>
   (m_BuffMutex s = Live \<longrightarrow>
      (wait 10 = WAIT_OBJECT_0 \<longrightarrow>
         Write asserts wait os s = (Inr True, s\<lparr>m_Buffer := m_Buffer s @ os\<rparr>) \<and>
         Flush asserts wait s = (Inr (), s\<lparr>m_Buffer := m_Buffer s @ m_Os s, m_Os := []\<rparr>)) \<and>
      (wait 10 = WAIT_TIMEOUT \<longrightarrow>
         Write asserts wait os s = (Inr False, s) \<and>
         Flush asserts wait s = (Inr (), s) \<and>
         (wait' 10 = WAIT_OBJECT_0 \<longrightarrow>
            snd (Flush asserts wait' (Logger_shift later (snd (Flush asserts wait s)))) =
              s\<lparr>m_Buffer := m_Buffer s @ m_Os s @ later, m_Os := []\<rparr>)))"
  by (auto simp: Wait_Time_glob_def Write_def Flush_def Mutex_Lock_def Logger_shift_def)

theorem C2_Write_and_Flush_witness:
  "m_BuffMutex log_active = Live \<and>
   Write False (\<lambda>timeOut. WAIT_OBJECT_0) ''x'' log_active =
     (Inr True, log_active\<lparr>m_Buffer := m_Buffer log_active @ ''x''\<rparr>) \<and>
   Write False (\<lambda>timeOut. if timeOut = 10 then WAIT_TIMEOUT else WAIT_OBJECT_0) ''x'' log_active =
     (Inr False, log_active) \<and>
   Flush False (\<lambda>timeOut. if timeOut = 10 then WAIT_TIMEOUT else WAIT_OBJECT_0)
       (Logger_shift ''x'' log_active) =
     (Inr (), Logger_shift ''x'' log_active) \<and>
   snd (Flush False (\<lambda>timeOut. WAIT_OBJECT_0)
          (Logger_shift ''y''
             (snd (Flush False (\<lambda>timeOut. WAIT_TIMEOUT) (Logger_shift ''x'' log_active))))) =
     (Logger_shift ''x'' log_active)
       \<lparr>m_Buffer := m_Buffer (Logger_shift ''x'' log_active) @
                     m_Os (Logger_shift ''x'' log_active) @ ''y'',
        m_Os := []\<rparr>"
proof -
  let ?to = "\<lambda>timeOut::nat. if timeOut = 10 then WAIT_TIMEOUT else WAIT_OBJECT_0"
  have live: "m_BuffMutex log_active = Live" by code_simp
  have live': "m_BuffMutex (Logger_shift ''x'' log_active) = Live" by code_simp
  have ok: "(\<lambda>timeOut::nat. WAIT_OBJECT_0) 10 = WAIT_OBJECT_0" by simp
  have to: "?to 10 = WAIT_TIMEOUT" by simp
  have to': "(\<lambda>timeOut::nat. WAIT_TIMEOUT) 10 = WAIT_TIMEOUT" by simp
  from C2_Write_and_Flush[where s = log_active and wait = "\<lambda>timeOut. WAIT_OBJECT_0"
         and asserts = False and os = "''x''", THEN conjunct2, THEN mp, OF live,
         THEN conjunct1, THEN mp, OF ok, THEN conjunct1]
  have A: "Write False (\<lambda>timeOut. WAIT_OBJECT_0) ''x'' log_active =
     (Inr True, log_active\<lparr>m_Buffer := m_Buffer log_active @ ''x''\<rparr>)" .
  from C2_Write_and_Flush[where s = log_active and wait = ?to
         and asserts = False and os = "''x''", THEN conjunct2, THEN mp, OF live,
         THEN conjunct2, THEN mp, OF to, THEN conjunct1]
  have B: "Write False ?to ''x'' log_active = (Inr False, log_active)" .
  from C2_Write_and_Flush[where s = "Logger_shift ''x'' log_active" and wait = ?to
         and asserts = False, THEN conjunct2, THEN mp, OF live',
         THEN conjunct2, THEN mp, OF to, THEN conjunct2, THEN conjunct1]
  have C: "Flush False ?to (Logger_shift ''x'' log_active) =
     (Inr (), Logger_shift ''x'' log_active)" .
  from C2_Write_and_Flush[where s = "Logger_shift ''x'' log_active"
         and wait = "\<lambda>timeOut. WAIT_TIMEOUT" and wait' = "\<lambda>timeOut. WAIT_OBJECT_0"
         and later = "''y''"
         and asserts = False, THEN conjunct2, THEN mp, OF live',
         THEN conjunct2, THEN mp, OF to', THEN conjunct2, THEN conjunct2, THEN mp, OF ok]
  have D: "snd (Flush False (\<lambda>timeOut. WAIT_OBJECT_0)
          (Logger_shift ''y''
             (snd (Flush False (\<lambda>timeOut. WAIT_TIMEOUT) (Logger_shift ''x'' log_active))))) =
     (Logger_shift ''x'' log_active)
       \<lparr>m_Buffer := m_Buffer (Logger_shift ''x'' log_active) @
                     m_Os (Logger_shift ''x'' log_active) @ ''y'',
        m_Os := []\<rparr>" .
  show ?thesis
    by (intro conjI, rule live, rule A, rule B, rule C, rule D)
qed

text \<open>
  The destructor on its own, with no step of the other thread in between. The destructor
  of a logger that was never started only returns. Of one that was
  started (its mutex exists and is free, its file is open and has not failed): three
  steps clear \<open>m_Continue\<close> and pass the \<open>Sleep\<close>, leaving buffer and files alone; the
  next two take the lock and write the whole of \<open>m_Buffer\<close> and then of \<open>m_Os\<close> to the
  file, still open, leaving both empty; the last three release the lock, delete thread
  and mutex and close the file, whose contents stay.
\<close>

lemma teardown_of_sound_logger:
  "(log_crash s = None \<and> dtor s = T_Entry \<and> \<not> m_ThreadStarted s \<longrightarrow>
      lstep asserts Dtor_step s = s\<lparr>dtor := T_Done\<rparr>) \<and>
   (log_crash s = None \<and> dtor s = T_Entry \<and> m_ThreadStarted s \<and> m_BuffMutex s = Live \<and>
    buff_owner s = None \<and> of_open (m_Of s) \<and> \<not> of_fail (m_Of s) \<and>
    files s (of_path (m_Of s)) = Some old \<longrightarrow>
      (let s3 = lexec asserts [Dtor_step, Dtor_step, Dtor_step] s;
           s5 = lexec asserts [Dtor_step, Dtor_step] s3;
           s8 = lexec asserts [Dtor_step, Dtor_step, Dtor_step] s5
       in dtor s3 = T_Lock \<and> \<not> m_Continue s3 \<and> m_Buffer s3 = m_Buffer s \<and>
          m_Os s3 = m_Os s \<and> files s3 = files s \<and>
          dtor s5 = T_Unlock \<and> buff_owner s5 = Some Owner \<and> of_open (m_Of s5) \<and>
          files s5 (of_path (m_Of s)) = Some (old @ m_Buffer s @ m_Os s) \<and>
          m_Buffer s5 = [] \<and> m_Os s5 = [] \<and>
          dtor s8 = T_Done \<and> log_crash s8 = None \<and> buff_owner s8 = None \<and>
          \<not> of_open (m_Of s8) \<and> files s8 = files s5))"
  by (auto simp: log_defs)

lemma teardown_of_sound_logger_example:
  "(let s = Logger_ctor old_files (\<lambda>n. False)
    in \<not> m_ThreadStarted s \<and> lstep False Dtor_step s = s\<lparr>dtor := T_Done\<rparr>) \<and>
   (let s = Logger_shift ''B'' (lstep False (Producer ''A'') log_active);
        s3 = lexec False [Dtor_step, Dtor_step, Dtor_step] s;
        s5 = lexec False [Dtor_step, Dtor_step] s3;
        s8 = lexec False [Dtor_step, Dtor_step, Dtor_step] s5
    in m_Buffer s = ''A'' \<and> m_Os s = ''B'' \<and> files s ''log.txt'' = Some [] \<and>
       \<not> m_Continue s3 \<and> files s5 ''log.txt'' = Some ''AB'' \<and> of_open (m_Of s5) \<and>
       m_Buffer s5 = [] \<and> m_Os s5 = [] \<and>
       dtor s8 = T_Done \<and> \<not> of_open (m_Of s8) \<and> files s8 ''log.txt'' = Some ''AB'')"
proof -
  let ?i = "Logger_ctor old_files (\<lambda>n. False)"
  let ?s = "Logger_shift ''B'' (lstep False (Producer ''A'') log_active)"
  have i: "log_crash ?i = None \<and> dtor ?i = T_Entry \<and> \<not> m_ThreadStarted ?i"
    by code_simp
  have s: "log_crash ?s = None \<and> dtor ?s = T_Entry \<and> m_ThreadStarted ?s \<and>
    m_BuffMutex ?s = Live \<and> buff_owner ?s = None \<and> of_open (m_Of ?s) \<and>
    \<not> of_fail (m_Of ?s) \<and> files ?s (of_path (m_Of ?s)) = Some []"
    by code_simp
  have v: "m_Buffer ?s = ''A''" "m_Os ?s = ''B''" "of_path (m_Of ?s) = ''log.txt''"
    "files ?s ''log.txt'' = Some []"
    by code_simp+
  from teardown_of_sound_logger[where s = ?i and asserts = False, THEN conjunct1, THEN mp, OF i] i
  have A: "let s = ?i in \<not> m_ThreadStarted s \<and> lstep False Dtor_step s = s\<lparr>dtor := T_Done\<rparr>"
    by (simp add: Let_def)
  from teardown_of_sound_logger[where s = ?s and asserts = False and old = "[]", THEN conjunct2, THEN mp, OF s] v
  have B: "let s = ?s;
        s3 = lexec False [Dtor_step, Dtor_step, Dtor_step] s;
        s5 = lexec False [Dtor_step, Dtor_step] s3;
        s8 = lexec False [Dtor_step, Dtor_step, Dtor_step] s5
    in m_Buffer s = ''A'' \<and> m_Os s = ''B'' \<and> files s ''log.txt'' = Some [] \<and>
       \<not> m_Continue s3 \<and> files s5 ''log.txt'' = Some ''AB'' \<and> of_open (m_Of s5) \<and>
       m_Buffer s5 = [] \<and> m_Os s5 = [] \<and>
       dtor s8 = T_Done \<and> \<not> of_open (m_Of s8) \<and> files s8 ''log.txt'' = Some ''AB''"
    by (simp add: Let_def)
  show ?thesis
    by (intro conjI, rule A, rule B)
qed

text \<open>
  C3. The claim: the teardown of a logger that was started clears the flag, waits, and
  then under the buffer lock writes all text still buffered to the destination before
  closing it, so that the teardown discards no buffered byte.
  The code, for three started loggers. One whose second \<open>SetFile\<close> failed has no open
  file (the old one was closed first): \<open>ForceWrite\<close> puts \<open>A\<close> and \<open>B\<close> into the failed
  stream, empties \<open>m_Buffer\<close> and \<open>m_Os\<close> and returns true, and the text is in no file.
  One whose first \<open>SetFile\<close> could not make the mutex has \<open>m_ThreadStarted\<close> set and a null
  \<open>m_BuffMutex\<close>: the destructor passes its test and locks through the null pointer, with
  \<open>B\<close> unwritten. And in one with a mutex and a good open file, the thread takes \<open>A\<close> out of
  the buffer after the destructor has started and has not written it when the destructor
  ends: the file is closed empty.
\<close>

theorem C3_teardown_discards_or_crashes:
  "(let s = log_no_sink; s' = lexec False (replicate 8 Dtor_step) s
    in m_ThreadStarted s \<and> log_crash s = None \<and> dtor s = T_Entry \<and>
       m_BuffMutex s = Live \<and> buff_owner s = None \<and> \<not> of_open (m_Of s) \<and>
       m_Buffer s = ''A'' \<and> m_Os s = ''B'' \<and>
       dtor s' = T_Done \<and> log_crash s' = None \<and>
       m_Buffer s' = [] \<and> m_Os s' = [] \<and> outBuffer s' = [] \<and>
       files s' ''log.txt'' = Some [] \<and> files s' ''bad'' = None \<and>
       files s' ''a.log'' = Some ''old'') \<and>
   (let s = log_no_mutex; s' = lexec False (replicate 8 Dtor_step) s
    in m_ThreadStarted s \<and> log_crash s = None \<and> dtor s = T_Entry \<and>
       m_BuffMutex s = Null \<and> of_open (m_Of s) \<and> \<not> of_fail (m_Of s) \<and> m_Os s = ''B'' \<and>
       log_crash s' = Some NullDeref \<and> m_Os s' = ''B'' \<and>
       of_open (m_Of s') \<and> files s' ''log.txt'' = Some []) \<and>
   (let s = lstep False (Producer ''A'') log_active;
        s' = lexec False ([Dtor_step] @ replicate 4 Drain_step @ replicate 7 Dtor_step) s
    in m_ThreadStarted s \<and> log_crash s = None \<and> dtor s = T_Entry \<and>
       m_BuffMutex s = Live \<and> buff_owner s = None \<and> of_open (m_Of s) \<and>
       \<not> of_fail (m_Of s) \<and> m_Buffer s = ''A'' \<and>
       dtor s' = T_Done \<and> log_crash s' = None \<and> m_Buffer s' = [] \<and>
       outBuffer s' = ''A'' \<and> drain s' = D_Write \<and>
       files s' ''log.txt'' = Some [] \<and> \<not> of_open (m_Of s'))"
  by code_simp

text \<open>The files after the first of these teardowns: the one the logger opened is empty.\<close>

lemma files_log_no_sink:
  "files (lexec False (replicate 8 Dtor_step) log_no_sink) = old_files(''log.txt'' \<mapsto> [])"
  by (simp add: log_no_sink_def log_active_def old_files_def Logger_ctor_def SetFile_def
        StartThread_def Logger_shift_def Flush_def Write_def Mutex_Lock_def Wait_Time_glob_def
        log_defs numeral_eq_Suc)

text \<open>
  C9, as the claim states it: \<open>SetFile\<close> opens the sink for append, and a failure to open
  it is reported to the caller. \<open>m_Of.open(fileName)\<close> has the default open mode, which
  truncates: what the file held is gone after \<open>SetFile\<close>, also what the logger itself
  wrote to it before a second \<open>SetFile\<close> with the same name. And in a build with
  assertions a failed open stops at \<open>assert(0)\<close> before the \<open>return false\<close>.
\<close>

theorem C9_SetFile_truncates:
  "(let s = Logger_ctor old_files (\<lambda>n. n = ''bad'');
        (r, s') = SetFile False True True ''a.log'' s
    in files s ''a.log'' = Some ''old'' \<and> r = Inr True \<and> files s' ''a.log'' = Some []) \<and>
   (let s = lexec False ([Producer ''A''] @ replicate 5 Drain_step) log_active;
        (r, s') = SetFile False True True ''log.txt'' s
    in files s ''log.txt'' = Some ''A'' \<and> r = Inr True \<and> files s' ''log.txt'' = Some []) \<and>
   fst (SetFile True True True ''bad'' log_active) = Inl AssertFailed"
  by code_simp

text \<open>
  C9, amended. When the file can be opened (and the lock exists or can be made),
  \<open>SetFile\<close> returns true with the stream open on the new name, whether or not a file was
  open before; the new file is empty and the other files are as they were. The lock, the
  thread object and the thread are made by the first such call and left alone by the
  later ones. When the file cannot be opened, \<open>SetFile\<close> returns false (without
  assertions), the stream is closed, and no lock or thread is made. When the lock cannot
  be made at the first activation, an error is thrown and no thread is started.
\<close>

theorem C9_SetFile:
  "(\<not> no_access s fileName \<and>
    (m_ThreadStarted s \<or> mutex_ok \<and> (thread_ok \<or> \<not> asserts)) \<longrightarrow>
      (let (r, s') = SetFile asserts mutex_ok thread_ok fileName s
       in r = Inr True \<and> of_open (m_Of s') \<and> \<not> of_fail (m_Of s') \<and>
          of_path (m_Of s') = fileName \<and> files s' fileName = Some [] \<and>
          (\<forall>n. n \<noteq> fileName \<longrightarrow> files s' n = files s n) \<and> m_ThreadStarted s' \<and>
          (if m_ThreadStarted s
           then m_BuffMutex s' = m_BuffMutex s \<and> m_ThreadHandle s' = m_ThreadHandle s \<and>
                m_Continue s' = m_Continue s \<and> drain s' = drain s
           else m_BuffMutex s' = Live \<and> m_ThreadHandle s' = Live \<and> m_Continue s' \<and>
                drain s' = (if thread_ok then D_While else drain s)))) \<and>
   (no_access s fileName \<longrightarrow>
      (let (r, s') = SetFile asserts mutex_ok thread_ok fileName s
       in r = (if asserts then Inl AssertFailed else Inr False) \<and>
          \<not> of_open (m_Of s') \<and> files s' = files s \<and>
          m_ThreadStarted s' = m_ThreadStarted s \<and> m_BuffMutex s' = m_BuffMutex s \<and>
          m_ThreadHandle s' = m_ThreadHandle s \<and> drain s' = drain s)) \<and>
   (\<not> no_access s fileName \<and> \<not> m_ThreadStarted s \<and> \<not> mutex_ok \<longrightarrow>
      (let (r, s') = SetFile asserts mutex_ok thread_ok fileName s
       in r = Inl (if asserts then AssertFailed
                   else Error ''Mutex::Mutex - Create mutex failed with code: '') \<and>
          m_BuffMutex s' = m_BuffMutex s \<and> m_ThreadHandle s' = m_ThreadHandle s \<and>
          drain s' = drain s))"
  by (auto simp: SetFile_def StartThread_def OpenFile_def CloseFile_def ofstream_open_def
        ofstream_close_def Let_def)

theorem C9_SetFile_witness:
  "(let s = Logger_ctor old_files (\<lambda>n. n = ''bad'');
        r = SetFile False True True ''log.txt'' s
    in \<not> m_ThreadStarted s \<and> fst r = Inr True \<and> of_open (m_Of (snd r)) \<and>
       of_path (m_Of (snd r)) = ''log.txt'' \<and> files (snd r) ''log.txt'' = Some [] \<and>
       m_BuffMutex (snd r) = Live \<and> drain (snd r) = D_While) \<and>
   (let r = SetFile False True True ''a.log'' log_active
    in of_path (m_Of log_active) = ''log.txt'' \<and> fst r = Inr True \<and>
       of_path (m_Of (snd r)) = ''a.log'' \<and> files (snd r) ''a.log'' = Some [] \<and>
       drain (snd r) = drain log_active \<and> m_BuffMutex (snd r) = m_BuffMutex log_active) \<and>
   (let r = SetFile False True True ''bad'' log_active
    in fst r = Inr False \<and> \<not> of_open (m_Of (snd r)) \<and> drain (snd r) = drain log_active) \<and>
   (let r = SetFile False False True ''log.txt'' (Logger_ctor old_files (\<lambda>n. n = ''bad''))
    in fst r = Inl (Error ''Mutex::Mutex - Create mutex failed with code: '') \<and>
       drain (snd r) = D_NotStarted \<and> m_BuffMutex (snd r) = Null)"
proof -
  let ?i = "Logger_ctor old_files (\<lambda>n. n = ''bad'')"
  have i: "\<not> no_access ?i ''log.txt'' \<and> (m_ThreadStarted ?i \<or> True \<and> (True \<or> \<not> False))"
    by code_simp
  have i': "\<not> m_ThreadStarted ?i" "drain ?i = D_NotStarted" "m_BuffMutex ?i = Null" by code_simp+
  have a: "\<not> no_access log_active ''a.log'' \<and>
    (m_ThreadStarted log_active \<or> True \<and> (True \<or> \<not> False))"
    by code_simp
  have a': "m_ThreadStarted log_active" "of_path (m_Of log_active) = ''log.txt''" by code_simp+
  have b: "no_access log_active ''bad''" by code_simp
  have c: "\<not> no_access ?i ''log.txt'' \<and> \<not> m_ThreadStarted ?i \<and> \<not> False" by code_simp
  from C9_SetFile[where s = ?i and fileName = "''log.txt''" and asserts = False
         and mutex_ok = True and thread_ok = True, THEN conjunct1, THEN mp, OF i] i'
  have A: "let s = ?i; r = SetFile False True True ''log.txt'' s
    in \<not> m_ThreadStarted s \<and> fst r = Inr True \<and> of_open (m_Of (snd r)) \<and>
       of_path (m_Of (snd r)) = ''log.txt'' \<and> files (snd r) ''log.txt'' = Some [] \<and>
       m_BuffMutex (snd r) = Live \<and> drain (snd r) = D_While"
    by (simp add: Let_def split_beta)
  from C9_SetFile[where s = log_active and fileName = "''a.log''" and asserts = False
         and mutex_ok = True and thread_ok = True, THEN conjunct1, THEN mp, OF a] a'
  have B: "let r = SetFile False True True ''a.log'' log_active
    in of_path (m_Of log_active) = ''log.txt'' \<and> fst r = Inr True \<and>
       of_path (m_Of (snd r)) = ''a.log'' \<and> files (snd r) ''a.log'' = Some [] \<and>
       drain (snd r) = drain log_active \<and> m_BuffMutex (snd r) = m_BuffMutex log_active"
    by (simp add: Let_def split_beta)
  from C9_SetFile[where s = log_active and fileName = "''bad''" and asserts = False
         and mutex_ok = True and thread_ok = True, THEN conjunct2, THEN conjunct1, THEN mp, OF b]
  have C: "let r = SetFile False True True ''bad'' log_active
    in fst r = Inr False \<and> \<not> of_open (m_Of (snd r)) \<and> drain (snd r) = drain log_active"
    by (simp add: Let_def split_beta)
  from C9_SetFile[where s = ?i and fileName = "''log.txt''" and asserts = False
         and mutex_ok = False and thread_ok = True, THEN conjunct2, THEN conjunct2, THEN mp, OF c] i'
  have D: "let r = SetFile False False True ''log.txt'' ?i
    in fst r = Inl (Error ''Mutex::Mutex - Create mutex failed with code: '') \<and>
       drain (snd r) = D_NotStarted \<and> m_BuffMutex (snd r) = Null"
    by (simp add: Let_def split_beta)
  show ?thesis
    by (intro conjI, rule A, rule B, rule C, rule D)
qed


end
